theory Spec2Isabelle
  imports Complex_Main
begin

section \<open>Data model (database package)\<close>

text \<open>
  \<open>decimal.Decimal\<close> is an arbitrary-precision decimal; \<open>Add\<close>, \<open>Sub\<close> and
  \<open>LessThan\<close> are exact, so a decimal is modelled by the rational number it denotes.
  \<open>time.Time\<close> is an instant, in nanoseconds since the Unix epoch. \<open>int64\<close> identifiers are
  integers: they are produced by \<open>len(map) + 1\<close> and never come near the 64-bit bound.
\<close>

type_synonym decimal = rat
type_synonym time = int
type_synonym addr = nat

datatype error = ErrAccountNotFound | ErrAccountAlreadyExists | ErrNotEnoughFunds

record Account =
  ID :: int
  Name :: string
  CPF :: string
  Secret :: string
  Balance :: decimal
  CreatedAt :: time

record Transfer =
  TransferID :: int
  AccountOriginID :: int
  AccountDestinationID :: int
  Amount :: decimal
  TransferCreatedAt :: time

section \<open>The in-memory database\<close>

text \<open>
  \<open>inmemDB.accounts\<close> is a \<open>map[int64]*Account\<close>: it holds pointers, and
  \<open>CreateTransfer\<close> writes through them. The \<open>Account\<close> objects therefore live in an
  explicit heap (\<open>heap\<close>, with \<open>brk\<close> the next address \<open>&Account{...}\<close> returns), and the
  map holds addresses. A stored \<open>*Transfer\<close> is never written again after
  \<open>CreateTransfer\<close> returns, and every caller passes a newly allocated one, so
  \<open>transfers\<close> holds the values. Every address holds an object: the callers never pass
  \<open>nil\<close>. The mutex \<open>mu\<close> makes every method atomic; the methods are modelled as
  atomic state transformers. \<open>i.now()\<close> is the argument \<open>now\<close>.
\<close>

record inmemDB =
  heap :: "addr \<Rightarrow> Account"
  brk :: addr
  accounts :: "int \<rightharpoonup> addr"
  transfers :: "int \<rightharpoonup> Transfer"

text \<open>The zero \<open>time.Time\<close> is 1 January of year 1, 00:00 UTC.\<close>

definition zeroTime :: time where
  "zeroTime = - 62135596800 * 1000000000"

definition zeroAccount :: Account where
  "zeroAccount = \<lparr>ID = 0, Name = [], CPF = [], Secret = [], Balance = 0, CreatedAt = zeroTime\<rparr>"

definition NewInMemDB :: inmemDB where
  "NewInMemDB = \<lparr>heap = (\<lambda>_. zeroAccount), brk = 0, accounts = Map.empty, transfers = Map.empty\<rparr>"

text \<open>\<open>account := &Account{...}\<close> in a caller: a new object at a new address.\<close>

definition new_Account :: "Account \<Rightarrow> inmemDB \<Rightarrow> addr \<times> inmemDB" where
  "new_Account a i = (brk i, i\<lparr>heap := (heap i)(brk i := a), brk := Suc (brk i)\<rparr>)"

text \<open>
  Go visits the entries of a map in an unspecified order, chosen anew for every \<open>range\<close>
  loop. The order is an argument of every method that ranges over a map: a list \<open>ks\<close> of
  the keys, each exactly once (\<open>range_order\<close>). \<open>range_values\<close> is the sequence of values
  the loop body sees.
\<close>

definition range_order :: "'k list \<Rightarrow> ('k \<rightharpoonup> 'v) \<Rightarrow> bool" where
  "range_order ks m \<longleftrightarrow> distinct ks \<and> set ks = dom m"

definition range_values :: "'k list \<Rightarrow> ('k \<rightharpoonup> 'v) \<Rightarrow> 'v list" where
  "range_values ks m = List.map_filter m ks"

text \<open>The loop of \<open>CreateAccount\<close>: \<open>True\<close> when it returns \<open>ErrAccountAlreadyExists\<close>.\<close>

fun CreateAccount_loop :: "(addr \<Rightarrow> Account) \<Rightarrow> string \<Rightarrow> addr list \<Rightarrow> bool" where
  "CreateAccount_loop h cpf [] = False"
| "CreateAccount_loop h cpf (acc # rest) =
     (if CPF (h acc) = cpf then True else CreateAccount_loop h cpf rest)"

definition CreateAccount :: "int list \<Rightarrow> time \<Rightarrow> addr \<Rightarrow> inmemDB \<Rightarrow> error option \<times> inmemDB" where
  "CreateAccount ks now account i =
     (if CreateAccount_loop (heap i) (CPF (heap i account)) (range_values ks (accounts i))
      then (Some ErrAccountAlreadyExists, i)
      else
        let h1 = (heap i)(account := (heap i account)\<lparr>ID := int (card (dom (accounts i))) + 1\<rparr>);
            h2 = h1(account := (h1 account)\<lparr>CreatedAt := now\<rparr>)
        in (None, i\<lparr>heap := h2, accounts := (accounts i)(ID (h2 account) \<mapsto> account)\<rparr>))"

fun FindAccountByID_loop :: "(addr \<Rightarrow> Account) \<Rightarrow> int \<Rightarrow> addr list \<Rightarrow> addr option" where
  "FindAccountByID_loop h id' [] = None"
| "FindAccountByID_loop h id' (acc # rest) =
     (if ID (h acc) = id' then Some acc else FindAccountByID_loop h id' rest)"

definition FindAccountByID :: "int list \<Rightarrow> int \<Rightarrow> inmemDB \<Rightarrow> error + addr" where
  "FindAccountByID ks id' i =
     (case FindAccountByID_loop (heap i) id' (range_values ks (accounts i)) of
        Some acc \<Rightarrow> Inr acc
      | None \<Rightarrow> Inl ErrAccountNotFound)"

fun FindAccountByCPF_loop :: "(addr \<Rightarrow> Account) \<Rightarrow> string \<Rightarrow> addr list \<Rightarrow> addr option" where
  "FindAccountByCPF_loop h cpf [] = None"
| "FindAccountByCPF_loop h cpf (acc # rest) =
     (if CPF (h acc) = cpf then Some acc else FindAccountByCPF_loop h cpf rest)"

definition FindAccountByCPF :: "int list \<Rightarrow> string \<Rightarrow> inmemDB \<Rightarrow> error + addr" where
  "FindAccountByCPF ks cpf i =
     (case FindAccountByCPF_loop (heap i) cpf (range_values ks (accounts i)) of
        Some acc \<Rightarrow> Inr acc
      | None \<Rightarrow> Inl ErrAccountNotFound)"

text \<open>
  \<open>FindAllAccounts\<close> appends every pointer in the order of the \<open>range\<close> loop and never
  fails. \<open>FindAllAccounts_values\<close> reads the returned pointers.
\<close>

definition FindAllAccounts :: "int list \<Rightarrow> inmemDB \<Rightarrow> addr list" where
  "FindAllAccounts ks i = range_values ks (accounts i)"

definition FindAllAccounts_values :: "int list \<Rightarrow> inmemDB \<Rightarrow> Account list" where
  "FindAllAccounts_values ks i = map (heap i) (FindAllAccounts ks i)"

text \<open>
  The loop of \<open>CreateTransfer\<close> has no early exit: the last visited account with a
  matching \<open>ID\<close> stays in \<open>srcAccount\<close> (\<open>dstAccount\<close>); \<open>None\<close> is the \<open>nil\<close> pointer.
\<close>

fun CreateTransfer_loop ::
  "(addr \<Rightarrow> Account) \<Rightarrow> Transfer \<Rightarrow> addr list \<Rightarrow> addr option \<times> addr option \<Rightarrow> addr option \<times> addr option" where
  "CreateTransfer_loop h transfer [] (srcAccount, dstAccount) = (srcAccount, dstAccount)"
| "CreateTransfer_loop h transfer (acc # rest) (srcAccount, dstAccount) =
     CreateTransfer_loop h transfer rest
       (if ID (h acc) = AccountOriginID transfer then Some acc else srcAccount,
        if ID (h acc) = AccountDestinationID transfer then Some acc else dstAccount)"

text \<open>
  \<open>CreateTransfer\<close> returns the error, the \<open>Transfer\<close> the caller's pointer refers to after
  the call (its \<open>ID\<close> and \<open>CreatedAt\<close> are assigned on success) and the new state. The two
  balance assignments go through the pointers one after the other: when \<open>srcAccount\<close> and
  \<open>dstAccount\<close> are the same pointer the second one reads what the first one wrote.
\<close>

definition CreateTransfer ::
  "int list \<Rightarrow> time \<Rightarrow> Transfer \<Rightarrow> inmemDB \<Rightarrow> error option \<times> Transfer \<times> inmemDB" where
  "CreateTransfer ks now transfer i =
     (case CreateTransfer_loop (heap i) transfer (range_values ks (accounts i)) (None, None) of
        (Some srcAccount, Some dstAccount) \<Rightarrow>
          if Balance (heap i srcAccount) < Amount transfer
          then (Some ErrNotEnoughFunds, transfer, i)
          else
            let transfer' = transfer\<lparr>TransferID := int (card (dom (transfers i))) + 1,
                                     TransferCreatedAt := now\<rparr>;
                h1 = (heap i)(srcAccount :=
                       (heap i srcAccount)\<lparr>Balance := Balance (heap i srcAccount) - Amount transfer'\<rparr>);
                h2 = h1(dstAccount :=
                       (h1 dstAccount)\<lparr>Balance := Balance (h1 dstAccount) + Amount transfer'\<rparr>);
                a1 = (accounts i)(ID (h2 srcAccount) \<mapsto> srcAccount);
                a2 = a1(ID (h2 dstAccount) \<mapsto> dstAccount)
            in (None, transfer',
                i\<lparr>heap := h2, accounts := a2,
                  transfers := (transfers i)(TransferID transfer' \<mapsto> transfer')\<rparr>)
      | _ \<Rightarrow> (Some ErrAccountNotFound, transfer, i))"

section \<open>Sequences of database operations\<close>

text \<open>
  The callers (the handlers of the router) change the store through two operations only:
  they allocate an \<open>Account\<close> and pass it to \<open>CreateAccount\<close>, or they pass a new
  \<open>Transfer\<close> to \<open>CreateTransfer\<close>. An operation carries the order in which its
  \<open>range\<close> loop visits the map and the value of \<open>now()\<close>. \<open>run\<close> executes a sequence
  from a state; it is \<open>None\<close> when an order is not an enumeration of the keys of the map
  at that point, which no execution of the program produces.
\<close>

datatype op = OpCreateAccount "int list" time Account | OpCreateTransfer "int list" time Transfer

fun op_range :: "op \<Rightarrow> int list" where
  "op_range (OpCreateAccount ks now a) = ks"
| "op_range (OpCreateTransfer ks now t) = ks"

fun apply_op :: "op \<Rightarrow> inmemDB \<Rightarrow> error option \<times> inmemDB" where
  "apply_op (OpCreateAccount ks now a) i =
     (case new_Account a i of (account, i1) \<Rightarrow> CreateAccount ks now account i1)"
| "apply_op (OpCreateTransfer ks now t) i =
     (case CreateTransfer ks now t i of (err, transfer, i') \<Rightarrow> (err, i'))"

fun run :: "inmemDB \<Rightarrow> op list \<Rightarrow> inmemDB option" where
  "run i [] = Some i"
| "run i (x # xs) =
     (if range_order (op_range x) (accounts i) then run (snd (apply_op x i)) xs else None)"

text \<open>The inputs of an operation that carry money: the initial balance, the amount.\<close>

fun op_nonneg :: "op \<Rightarrow> bool" where
  "op_nonneg (OpCreateAccount ks now a) = (0 \<le> Balance a)"
| "op_nonneg (OpCreateTransfer ks now t) = (0 \<le> Amount t)"

definition balances_nonneg :: "inmemDB \<Rightarrow> bool" where
  "balances_nonneg i \<longleftrightarrow> (\<forall>k p. accounts i k = Some p \<longrightarrow> 0 \<le> Balance (heap i p))"

text \<open>
  The invariant of the store: keys are \<open>1..len\<close> in both maps, an account is stored under
  its own \<open>ID\<close> at an allocated address, and no two entries have the same \<open>CPF\<close>.
\<close>

definition db_inv :: "inmemDB \<Rightarrow> bool" where
  "db_inv i \<longleftrightarrow>
     dom (accounts i) = {1..int (card (dom (accounts i)))} \<and>
     dom (transfers i) = {1..int (card (dom (transfers i)))} \<and>
     (\<forall>k p. accounts i k = Some p \<longrightarrow> ID (heap i p) = k \<and> p < brk i) \<and>
     (\<forall>k k' p p'. accounts i k = Some p \<and> accounts i k' = Some p' \<and>
        CPF (heap i p) = CPF (heap i p') \<longrightarrow> k = k')"

section \<open>Tokens (auth package)\<close>

text \<open>
  \<open>jwt.StandardClaims\<close> with the account id added. \<open>time.Now()\<close> is read twice in
  \<open>EncodeToken\<close>, first for \<open>IssuedAt\<close> and then for \<open>ExpiresAt\<close> (the fields of a
  composite literal are evaluated in the order written): the two readings are the
  arguments \<open>now1\<close> and \<open>now2\<close>. \<open>Unix\<close> is the number of whole seconds since the epoch.
  The signing of the claims is done by the JWT library, the argument \<open>SignedString\<close>.
\<close>

record StandardClaims =
  Audience :: string
  ExpiresAt :: int
  Id :: string
  IssuedAt :: int
  Issuer :: string
  NotBefore :: int
  Subject :: string

record jwtClaims = StandardClaims +
  AccountID :: int

definition Unix :: "time \<Rightarrow> int" where
  "Unix t = t div 1000000000"

definition Hour :: int where
  "Hour = 3600 * 1000000000"

definition EncodeToken_claims :: "time \<Rightarrow> time \<Rightarrow> int \<Rightarrow> jwtClaims" where
  "EncodeToken_claims now1 now2 accountID =
     \<lparr>Audience = [], ExpiresAt = Unix (now2 + Hour), Id = [], IssuedAt = Unix now1,
      Issuer = [], NotBefore = 0, Subject = [], AccountID = accountID\<rparr>"

definition EncodeToken ::
  "(string \<Rightarrow> jwtClaims \<Rightarrow> 'e + 't) \<Rightarrow> time \<Rightarrow> time \<Rightarrow> string \<Rightarrow> int \<Rightarrow> 'e + 't" where
  "EncodeToken SignedString now1 now2 secret accountID =
     SignedString secret (EncodeToken_claims now1 now2 accountID)"

subsection \<open>The JWT library and HMAC\<close>

text \<open>
  \<open>auth.go\<close> signs and parses with jwt-go v3.2.0 and the method HS256, which is
  \<open>crypto/hmac\<close> over SHA-256; both are described here as their documentation and
  RFC 2104 have them. A token string is identified with what the parser of the library
  recovers from it: nothing when it is malformed (\<open>None\<close>), otherwise the signing method
  named in its header, its claims, its signing string (the first two segments) and its
  signature. The hash function and the serialisation of header and claims into the signing
  string are the arguments \<open>H\<close> and \<open>sstr\<close>.
\<close>

datatype ValidationError =
    ValidationErrorMalformed | ValidationErrorUnverifiable | ValidationErrorSignatureInvalid
  | ValidationErrorExpired | ValidationErrorIssuedAt | ValidationErrorNotValidYet

record Token =
  Method :: string
  Claims :: jwtClaims
  SigningString :: string
  Signature :: string

text \<open>
  \<open>hmac.New\<close>: a key longer than the block of 64 bytes is hashed first; the key is copied
  into a block of zero bytes; the inner and the outer pad are that block with every byte
  xor-ed with 0x36 and 0x5c.
\<close>

definition xor_byte :: "nat \<Rightarrow> char \<Rightarrow> char" where
  "xor_byte k c = char_of (xor (of_char c :: nat) k)"

definition hmac_block :: "(string \<Rightarrow> string) \<Rightarrow> string \<Rightarrow> string" where
  "hmac_block H key =
     (let k = take 64 (if length key > 64 then H key else key)
      in k @ replicate (64 - length k) (CHR 0x00))"

definition hmac :: "(string \<Rightarrow> string) \<Rightarrow> string \<Rightarrow> string \<Rightarrow> string" where
  "hmac H key msg =
     H (map (xor_byte 0x5c) (hmac_block H key) @ H (map (xor_byte 0x36) (hmac_block H key) @ msg))"

text \<open>
  \<open>jwt.NewWithClaims(jwtMethod, claims).SignedString(secret)\<close>: the signature is the HMAC
  of the signing string; with a key of type \<open>[]byte\<close> it does not fail.
\<close>

definition HS256_SignedString ::
  "(string \<Rightarrow> string) \<Rightarrow> (string \<Rightarrow> jwtClaims \<Rightarrow> string) \<Rightarrow> string \<Rightarrow> jwtClaims \<Rightarrow>
   ValidationError list + Token option" where
  "HS256_SignedString H sstr key claims =
     Inr (Some \<lparr>Method = ''HS256'', Claims = claims, SigningString = sstr ''HS256'' claims,
                Signature = hmac H key (sstr ''HS256'' claims)\<rparr>)"

text \<open>
  \<open>ParseWithClaims\<close>: the method named in the header must be a registered one; the key
  function is called with the token; the claims are validated against the clock
  (\<open>StandardClaims.Valid\<close>: a field equal to 0 is not checked) and the signature is verified;
  the errors found by the last two steps are collected. Only HS256 reaches \<open>Verify\<close> here,
  the key function of \<open>DecodeToken\<close> having refused every other method.
\<close>

definition signingMethods :: "string list" where
  "signingMethods = [''ES256'', ''ES384'', ''ES512'', ''HS256'', ''HS384'', ''HS512'', ''none'',
                     ''RS256'', ''RS384'', ''RS512'', ''PS256'', ''PS384'', ''PS512'']"

definition Verify :: "(string \<Rightarrow> string) \<Rightarrow> string \<Rightarrow> string \<Rightarrow> string \<Rightarrow> string \<Rightarrow> bool" where
  "Verify H alg signingString signature key \<longleftrightarrow>
     alg = ''HS256'' \<and> signature = hmac H key signingString"

definition Valid :: "int \<Rightarrow> jwtClaims \<Rightarrow> ValidationError list" where
  "Valid now c =
     (if ExpiresAt c \<noteq> 0 \<and> \<not> now \<le> ExpiresAt c then [ValidationErrorExpired] else []) @
     (if IssuedAt c \<noteq> 0 \<and> \<not> IssuedAt c \<le> now then [ValidationErrorIssuedAt] else []) @
     (if NotBefore c \<noteq> 0 \<and> \<not> NotBefore c \<le> now then [ValidationErrorNotValidYet] else [])"

definition ParseWithClaims ::
  "(string \<Rightarrow> string) \<Rightarrow> time \<Rightarrow> Token option \<Rightarrow> (string \<Rightarrow> string + string) \<Rightarrow>
   ValidationError list + jwtClaims" where
  "ParseWithClaims H now tokenString keyFunc =
     (case tokenString of
        None \<Rightarrow> Inl [ValidationErrorMalformed]
      | Some token \<Rightarrow>
         if Method token \<notin> set signingMethods then Inl [ValidationErrorUnverifiable]
         else
           (case keyFunc (Method token) of
              Inl err \<Rightarrow> Inl [ValidationErrorUnverifiable]
            | Inr key \<Rightarrow>
               let vErr = Valid (Unix now) (Claims token) @
                          (if Verify H (Method token) (SigningString token) (Signature token) key
                           then [] else [ValidationErrorSignatureInvalid])
               in if vErr = [] then Inr (Claims token) else Inl vErr))"

text \<open>
  \<open>auth.DecodeToken\<close>, with \<open>jwt.ParseWithClaims\<close> as an argument. (The constant is named
  \<open>auth_DecodeToken\<close>: \<open>DecodeToken\<close> is the name of an argument of \<open>requireLogin\<close> below.)
\<close>

definition auth_DecodeToken ::
  "('t \<Rightarrow> (string \<Rightarrow> string + string) \<Rightarrow> 'e + jwtClaims) \<Rightarrow> string \<Rightarrow> 't \<Rightarrow> 'e + int" where
  "auth_DecodeToken ParseWithClaims' secret token =
     (case ParseWithClaims' token
             (\<lambda>alg. if alg \<noteq> ''HS256'' then Inl ''unexpected signing method'' else Inr secret) of
        Inl err \<Rightarrow> Inl err
      | Inr claims \<Rightarrow> Inr (AccountID claims))"

section \<open>The handlers (router package)\<close>

datatype errorCode =
    codeMissingBearerToken | codeInvalidBearerToken | codeValidationError
  | codeAccountAlreadyExists | codeAccountNotFound | codeAccountSecretInvalid
  | codeAccountFundsInsuficient

record errorResponse =
  Code :: errorCode
  Details :: string

datatype status =
    StatusOK | StatusCreated | StatusBadRequest | StatusUnauthorized | StatusForbidden
  | StatusNotFound | StatusUnprocessableEntity | StatusInternalServerError

datatype body = NoBody | ErrorBody errorResponse | AccountBody Account | TransferBody Transfer

datatype response = Response status body

text \<open>
  A response is the status written and the value rendered as JSON (marshalling these values
  does not fail). \<open>renderError\<close> is \<open>renderJSON(w, code, &errorResponse{Code: c})\<close>;
  \<open>renderServerError\<close> logs and writes the status only.
\<close>

definition renderError :: "status \<Rightarrow> errorCode \<Rightarrow> response" where
  "renderError st c = Response st (ErrorBody \<lparr>Code = c, Details = []\<rparr>)"

definition renderServerError :: response where
  "renderServerError = Response StatusInternalServerError NoBody"

subsection \<open>Validation of request bodies\<close>

text \<open>
  \<open>validate.Struct\<close> (validator v10.4.1) yields one error for every field whose first
  failing tag is recorded: the field, the tag and its parameter. \<open>required\<close> fails on the
  zero value of a string or an integer and is not applied to a field of struct type such as
  \<open>decimal.Decimal\<close>; \<open>min=6\<close> on a string counts runes; \<open>cpf\<close> is the validation
  registered in \<open>init\<close>, an unanchored match of the regular expression
  \<open>\d{3}\.\d{3}\.\d{3}\-\d{2}\<close>.
\<close>

datatype FieldError = FieldError string string string

datatype cls = Digit | Lit char

definition cpf_regexp :: "cls list" where
  "cpf_regexp = [Digit, Digit, Digit, Lit CHR ''.'', Digit, Digit, Digit, Lit CHR ''.'',
                 Digit, Digit, Digit, Lit CHR ''-'', Digit, Digit]"

fun cls_ok :: "cls \<Rightarrow> char \<Rightarrow> bool" where
  "cls_ok Digit c = (c \<in> set ''0123456789'')"
| "cls_ok (Lit l) c = (c = l)"

fun match_here :: "cls list \<Rightarrow> string \<Rightarrow> bool" where
  "match_here [] s = True"
| "match_here (p # ps) [] = False"
| "match_here (p # ps) (c # cs) = (cls_ok p c \<and> match_here ps cs)"

fun MatchString :: "cls list \<Rightarrow> string \<Rightarrow> bool" where
  "MatchString re [] = match_here re []"
| "MatchString re (c # cs) = (match_here re (c # cs) \<or> MatchString re cs)"

text \<open>The runes of a well-formed UTF-8 string are its bytes that are not continuation bytes.\<close>

definition RuneCountInString :: "string \<Rightarrow> nat" where
  "RuneCountInString s = length (filter (\<lambda>c. \<not> (128 \<le> (of_char c :: nat) \<and> (of_char c :: nat) < 192)) s)"

text \<open>\<open>strings.ToLower\<close> on the names of struct fields, which are ASCII.\<close>

definition ToLower :: "string \<Rightarrow> string" where
  "ToLower s =
     map (\<lambda>c. case map_of (zip ''ABCDEFGHIJKLMNOPQRSTUVWXYZ'' ''abcdefghijklmnopqrstuvwxyz'') c of
                 Some l \<Rightarrow> l
               | None \<Rightarrow> c) s"

fun Join :: "string list \<Rightarrow> string \<Rightarrow> string" where
  "Join [] sep = []"
| "Join [x] sep = x"
| "Join (x # y # ys) sep = x @ sep @ Join (y # ys) sep"

fun validateBody_msg :: "FieldError \<Rightarrow> string" where
  "validateBody_msg (FieldError field tag param) =
     (if tag = ''required'' then ToLower field @ '' is required''
      else if tag = ''min'' then ToLower field @ '' must have at least '' @ param @ '' characters''
      else ToLower field @ '' is not valid'')"

definition validateBody :: "FieldError list \<Rightarrow> errorResponse option" where
  "validateBody errs =
     (if errs = [] then None
      else Some \<lparr>Code = codeValidationError, Details = Join (map validateBody_msg errs) '';''\<rparr>)"

subsection \<open>The access gate\<close>

text \<open>
  \<open>requireLogin\<close> either answers the request itself (\<open>Rejected\<close>) or calls the next
  handler with the account it found in the context (\<open>Next\<close>). \<open>header\<close> is the value of
  the \<open>Authorization\<close> header, empty when absent. \<open>strings.TrimSpace\<close> and
  \<open>auth.DecodeToken\<close> (which calls the JWT library and reads the clock) are arguments.
\<close>

datatype gate = Rejected response | Next addr

definition bearerToken :: "(string \<Rightarrow> string) \<Rightarrow> string \<Rightarrow> string" where
  "bearerToken TrimSpace header =
     (if length header > 7 then TrimSpace (drop 7 header) else header)"

definition requireLogin ::
  "(string \<Rightarrow> string) \<Rightarrow> (string \<Rightarrow> string \<Rightarrow> 'e + int) \<Rightarrow> string \<Rightarrow> int list \<Rightarrow> string \<Rightarrow> inmemDB \<Rightarrow> gate" where
  "requireLogin TrimSpace DecodeToken jwtSecret ks header i =
     (let token = bearerToken TrimSpace header in
      if token = [] then Rejected (renderError StatusForbidden codeMissingBearerToken)
      else
        case DecodeToken jwtSecret token of
          Inl err \<Rightarrow> Rejected (renderError StatusForbidden codeInvalidBearerToken)
        | Inr accountID \<Rightarrow>
            (case FindAccountByID ks accountID i of
               Inl err \<Rightarrow>
                 if err = ErrAccountNotFound
                 then Rejected (renderError StatusForbidden codeInvalidBearerToken)
                 else Rejected renderServerError
             | Inr account \<Rightarrow> Next account))"

subsection \<open>Creating accounts and transfers\<close>

text \<open>
  The body of a request after \<open>bindJSON\<close>; \<open>None\<close> when decoding failed. A field absent
  from the JSON has its zero value.
\<close>

record createAccount_body =
  body_Name :: string
  body_CPF :: string
  body_Secret :: string
  body_Balance :: decimal

record createTransfer_body =
  body_AccountDestinationID :: int
  body_Amount :: decimal

definition validate_createAccount :: "createAccount_body \<Rightarrow> FieldError list" where
  "validate_createAccount b =
     (if body_Name b = [] then [FieldError ''Name'' ''required'' []] else []) @
     (if body_CPF b = [] then [FieldError ''CPF'' ''required'' []]
      else if \<not> MatchString cpf_regexp (body_CPF b) then [FieldError ''CPF'' ''cpf'' []]
      else []) @
     (if body_Secret b = [] then [FieldError ''Secret'' ''required'' []]
      else if RuneCountInString (body_Secret b) < 6 then [FieldError ''Secret'' ''min'' ''6'']
      else [])"

definition validate_createTransfer :: "createTransfer_body \<Rightarrow> FieldError list" where
  "validate_createTransfer b =
     (if body_AccountDestinationID b = 0 then [FieldError ''AccountDestinationID'' ''required'' []]
      else [])"

definition createAccount ::
  "(string \<Rightarrow> 'e + string) \<Rightarrow> createAccount_body option \<Rightarrow> int list \<Rightarrow> time \<Rightarrow> inmemDB \<Rightarrow> response \<times> inmemDB" where
  "createAccount HashPassword body ks now i =
     (case body of
        None \<Rightarrow> (Response StatusBadRequest NoBody, i)
      | Some b \<Rightarrow>
         (case validateBody (validate_createAccount b) of
            Some res \<Rightarrow> (Response StatusUnprocessableEntity (ErrorBody res), i)
          | None \<Rightarrow>
             (case HashPassword (body_Secret b) of
                Inl err \<Rightarrow> (renderServerError, i)
              | Inr hash \<Rightarrow>
                 (case new_Account \<lparr>ID = 0, Name = body_Name b, CPF = body_CPF b, Secret = hash,
                                    Balance = body_Balance b, CreatedAt = zeroTime\<rparr> i of
                    (account, i1) \<Rightarrow>
                      (case CreateAccount ks now account i1 of
                         (Some err, i2) \<Rightarrow>
                           (if err = ErrAccountAlreadyExists
                            then renderError StatusUnprocessableEntity codeAccountAlreadyExists
                            else renderServerError, i2)
                       | (None, i2) \<Rightarrow> (Response StatusCreated (AccountBody (heap i2 account)), i2))))))"

text \<open>\<open>ctx\<close> is the account \<open>requireLogin\<close> left in the context of the request, if any.\<close>

definition createTransfer ::
  "addr option \<Rightarrow> createTransfer_body option \<Rightarrow> int list \<Rightarrow> time \<Rightarrow> inmemDB \<Rightarrow> response \<times> inmemDB" where
  "createTransfer ctx body ks now i =
     (case ctx of
        None \<Rightarrow> (renderError StatusForbidden codeMissingBearerToken, i)
      | Some account \<Rightarrow>
         (case body of
            None \<Rightarrow> (Response StatusBadRequest NoBody, i)
          | Some b \<Rightarrow>
             (case validateBody (validate_createTransfer b) of
                Some res \<Rightarrow> (Response StatusUnprocessableEntity (ErrorBody res), i)
              | None \<Rightarrow>
                 (case CreateTransfer ks now
                         \<lparr>TransferID = 0, AccountOriginID = ID (heap i account),
                          AccountDestinationID = body_AccountDestinationID b,
                          Amount = body_Amount b, TransferCreatedAt = zeroTime\<rparr> i of
                    (Some err, transfer, i') \<Rightarrow>
                      (if err = ErrAccountNotFound
                       then renderError StatusUnprocessableEntity codeAccountNotFound
                       else if err = ErrNotEnoughFunds
                       then renderError StatusUnprocessableEntity codeAccountFundsInsuficient
                       else renderServerError, i')
                  | (None, transfer, i') \<Rightarrow> (Response StatusCreated (TransferBody transfer), i')))))"

section \<open>An example store\<close>

text \<open>The two accounts of the tests, created at instants 1 and 2, and the store holding them.\<close>

definition acc1 :: Account where
  "acc1 = \<lparr>ID = 0, Name = ''first account'', CPF = ''111.111.111-11'', Secret = ''verysecretpassword'',
           Balance = 100, CreatedAt = zeroTime\<rparr>"

definition acc2 :: Account where
  "acc2 = \<lparr>ID = 0, Name = ''second account'', CPF = ''222.222.222-22'', Secret = ''othersecretpassword'',
           Balance = 50, CreatedAt = zeroTime\<rparr>"

definition two_accounts :: "op list" where
  "two_accounts = [OpCreateAccount [] 1 acc1, OpCreateAccount [1] 2 acc2]"

definition db2 :: inmemDB where
  "db2 = \<lparr>heap = (\<lambda>_. zeroAccount)(0 := acc1\<lparr>ID := 1, CreatedAt := 1\<rparr>, 1 := acc2\<lparr>ID := 2, CreatedAt := 2\<rparr>),
          brk = 2, accounts = [1 \<mapsto> 0, 2 \<mapsto> 1], transfers = Map.empty\<rparr>"

text \<open>
  Transfers on that store: the whole balance of account 1 to account 2, the same amount
  from account 1 to itself, more than account 1 holds, and to an account that does not exist.
\<close>

definition t12 :: Transfer where
  "t12 = \<lparr>TransferID = 0, AccountOriginID = 1, AccountDestinationID = 2, Amount = 100, TransferCreatedAt = zeroTime\<rparr>"

definition t11 :: Transfer where
  "t11 = \<lparr>TransferID = 0, AccountOriginID = 1, AccountDestinationID = 1, Amount = 100, TransferCreatedAt = zeroTime\<rparr>"

definition t_big :: Transfer where
  "t_big = \<lparr>TransferID = 0, AccountOriginID = 1, AccountDestinationID = 2, Amount = 1000000, TransferCreatedAt = zeroTime\<rparr>"

definition t_missing :: Transfer where
  "t_missing = \<lparr>TransferID = 0, AccountOriginID = 1, AccountDestinationID = 1000, Amount = 1, TransferCreatedAt = zeroTime\<rparr>"

text \<open>
  An account with the \<open>CPF\<close> of the first one, an account created with a negative
  balance, a transfer of a negative amount, and the store after the first transfer.
\<close>

definition acc3 :: Account where
  "acc3 = \<lparr>ID = 0, Name = ''duplicated account'', CPF = ''111.111.111-11'', Secret = ''secret'',
           Balance = 0, CreatedAt = zeroTime\<rparr>"

definition acc_neg :: Account where
  "acc_neg = \<lparr>ID = 0, Name = ''first account'', CPF = ''111.111.111-11'', Secret = ''verysecretpassword'',
           Balance = - 1, CreatedAt = zeroTime\<rparr>"

definition t_neg :: Transfer where
  "t_neg = \<lparr>TransferID = 0, AccountOriginID = 1, AccountDestinationID = 2, Amount = - 60, TransferCreatedAt = zeroTime\<rparr>"

definition three_ops :: "op list" where
  "three_ops = two_accounts @ [OpCreateTransfer [1, 2] 3 t12]"

definition db3 :: inmemDB where
  "db3 = snd (snd (CreateTransfer [1, 2] 3 t12 db2))"

text \<open>Bodies of transfer requests: a negative amount, the whole balance, too much.\<close>

definition body_neg :: createTransfer_body where
  "body_neg = \<lparr>body_AccountDestinationID = 2, body_Amount = - 5\<rparr>"

definition body_all :: createTransfer_body where
  "body_all = \<lparr>body_AccountDestinationID = 2, body_Amount = 100\<rparr>"

definition body_big :: createTransfer_body where
  "body_big = \<lparr>body_AccountDestinationID = 2, body_Amount = 1000\<rparr>"

text \<open>
  For the access gate: \<open>strings.TrimSpace\<close> restricted to ASCII white space, and a decoder
  that accepts one token, for account 1000.
\<close>

definition isSpace :: "char \<Rightarrow> bool" where
  "isSpace c \<longleftrightarrow> (of_char c :: nat) \<in> {9, 10, 11, 12, 13, 32}"

definition TrimSpace_ascii :: "string \<Rightarrow> string" where
  "TrimSpace_ascii s = rev (dropWhile isSpace (rev (dropWhile isSpace s)))"

definition DecodeToken_example :: "string \<Rightarrow> string \<Rightarrow> unit + int" where
  "DecodeToken_example secret token =
     (if secret = ''secret'' \<and> token = ''token-of-1000'' then Inr 1000 else Inl ())"

text \<open>The signing secret of the tests followed by one zero byte.\<close>

definition secret_zero :: string where
  "secret_zero = ''secret'' @ [CHR 0x00]"

section \<open>Loops over the map\<close>

lemma set_range_values: "set (range_values ks m) = {v. \<exists>k\<in>set ks. m k = Some v}"
  by (induction ks) (auto simp: range_values_def List.map_filter_simps split: option.splits)

lemma ran_range_values: "range_order ks m \<Longrightarrow> set (range_values ks m) = ran m"
  by (auto simp: set_range_values range_order_def ran_def dom_def)

lemma CreateAccount_loop_iff: "CreateAccount_loop h cpf ps \<longleftrightarrow> (\<exists>p\<in>set ps. CPF (h p) = cpf)"
  by (induction ps) auto

lemma FindAccountByID_loop_None: "FindAccountByID_loop h k ps = None \<longleftrightarrow> (\<forall>p\<in>set ps. ID (h p) \<noteq> k)"
  by (induction ps) auto

lemma FindAccountByID_loop_Some: "FindAccountByID_loop h k ps = Some q \<Longrightarrow> q \<in> set ps \<and> ID (h q) = k"
  by (induction ps) (auto split: if_splits)

lemma CreateTransfer_loop_fst:
  "\<forall>p\<in>set ps. ID (h p) = AccountOriginID t \<longrightarrow> p = q \<Longrightarrow>
   fst (CreateTransfer_loop h t ps (s, d)) = (if \<exists>p\<in>set ps. ID (h p) = AccountOriginID t then Some q else s)"
  by (induction ps arbitrary: s d) auto

lemma CreateTransfer_loop_snd:
  "\<forall>p\<in>set ps. ID (h p) = AccountDestinationID t \<longrightarrow> p = q \<Longrightarrow>
   snd (CreateTransfer_loop h t ps (s, d)) = (if \<exists>p\<in>set ps. ID (h p) = AccountDestinationID t then Some q else d)"
  by (induction ps arbitrary: s d) auto

lemma dom_next_fresh: "dom m = {1..int (card (dom m))} \<Longrightarrow> int (card (dom m)) + 1 \<notin> dom m"
  by (metis atLeastAtMost_iff add_le_same_cancel1 not_one_le_zero)

lemma dom_next:
  assumes "dom m = {1..int (card (dom m))}"
  shows "dom (m(int (card (dom m)) + 1 \<mapsto> v)) = {1..int (card (dom (m(int (card (dom m)) + 1 \<mapsto> v))))}"
proof -
  let ?n = "card (dom m)"
  have fin: "finite (dom m)" using assms by (metis finite_atLeastAtMost_int)
  have fresh: "int ?n + 1 \<notin> dom m" using assms by (rule dom_next_fresh)
  have "card (dom (m(int ?n + 1 \<mapsto> v))) = Suc ?n" using fin fresh by simp
  moreover have "insert (int ?n + 1) {1..int ?n} = {1..int ?n + 1}" by auto
  ultimately show ?thesis using assms by simp
qed

section \<open>The invariant of the store\<close>

lemma db_inv_NewInMemDB: "db_inv NewInMemDB"
  by (simp add: db_inv_def NewInMemDB_def)

lemma db_inv_new_Account: "db_inv i \<Longrightarrow> db_inv (snd (new_Account a i))"
  unfolding db_inv_def new_Account_def
  by (auto simp: less_Suc_eq)

lemma CreateAccount_loop_range:
  "range_order ks (accounts i) \<Longrightarrow>
   CreateAccount_loop (heap i) cpf (range_values ks (accounts i)) \<longleftrightarrow>
   (\<exists>k q. accounts i k = Some q \<and> CPF (heap i q) = cpf)"
  by (auto simp: CreateAccount_loop_iff ran_range_values ran_def)

lemma CreateAccount_exists:
  "range_order ks (accounts i) \<Longrightarrow> accounts i k = Some q \<Longrightarrow> CPF (heap i q) = CPF (heap i p) \<Longrightarrow>
   CreateAccount ks now p i = (Some ErrAccountAlreadyExists, i)"
  using CreateAccount_loop_range [of ks i "CPF (heap i p)"] by (auto simp: CreateAccount_def)

lemma CreateAccount_new:
  "range_order ks (accounts i) \<Longrightarrow> \<forall>k q. accounts i k = Some q \<longrightarrow> CPF (heap i q) \<noteq> CPF (heap i p) \<Longrightarrow>
   CreateAccount ks now p i =
     (None, i\<lparr>heap := (heap i)(p := (heap i p)\<lparr>ID := int (card (dom (accounts i))) + 1, CreatedAt := now\<rparr>),
              accounts := (accounts i)(int (card (dom (accounts i))) + 1 \<mapsto> p)\<rparr>)"
  using CreateAccount_loop_range [of ks i "CPF (heap i p)"] by (auto simp: CreateAccount_def Let_def)

lemma db_inv_CreateAccount:
  assumes inv: "db_inv i" and ord: "range_order ks (accounts i)" and p: "p < brk i"
  shows "db_inv (snd (CreateAccount ks now p i))"
proof (cases "\<exists>k q. accounts i k = Some q \<and> CPF (heap i q) = CPF (heap i p)")
  case True
  then show ?thesis using inv ord by (auto simp: CreateAccount_exists)
next
  case False
  define n where "n = int (card (dom (accounts i))) + 1"
  define h where "h = (heap i)(p := (heap i p)\<lparr>ID := n, CreatedAt := now\<rparr>)"
  define m where "m = (accounts i)(n \<mapsto> p)"
  from False have new: "\<forall>k q. accounts i k = Some q \<longrightarrow> CPF (heap i q) \<noteq> CPF (heap i p)" by blast
  then have fresh: "accounts i k = Some q \<Longrightarrow> q \<noteq> p" for k q by blast
  have d: "dom (accounts i) = {1..int (card (dom (accounts i)))}" using inv by (simp add: db_inv_def)
  have nfresh: "accounts i n = None" using dom_next_fresh [OF d] by (simp add: domIff n_def)
  have 1: "dom m = {1..int (card (dom m))}" using dom_next [OF d] by (simp add: m_def n_def)
  have old: "accounts i k = Some q \<Longrightarrow> m k = Some q \<and> h q = heap i q" for k q
    using nfresh fresh [of k q] by (auto simp: m_def h_def)
  have cases: "m k = Some q \<Longrightarrow> (k = n \<and> q = p) \<or> (k \<noteq> n \<and> accounts i k = Some q \<and> h q = heap i q)" for k q
    using fresh [of k q] by (auto simp: m_def h_def split: if_splits)
  have hp: "ID (h p) = n" "CPF (h p) = CPF (heap i p)" by (simp_all add: h_def)
  have 3: "\<forall>k q. m k = Some q \<longrightarrow> ID (h q) = k \<and> q < brk i"
  proof (intro allI impI)
    fix k q assume "m k = Some q"
    from cases [OF this] show "ID (h q) = k \<and> q < brk i"
      using inv p hp by (auto simp: db_inv_def)
  qed
  have 4: "\<forall>k k' q q'. m k = Some q \<and> m k' = Some q' \<and> CPF (h q) = CPF (h q') \<longrightarrow> k = k'"
  proof (intro allI impI, elim conjE)
    fix k k' q q'
    assume a: "m k = Some q" and b: "m k' = Some q'" and c: "CPF (h q) = CPF (h q')"
    from cases [OF a] cases [OF b] show "k = k'"
    proof (elim disjE conjE)
      assume "k = n" "k' = n" then show ?thesis by simp
    next
      assume "k = n" "q = p" "accounts i k' = Some q'" "h q' = heap i q'"
      with c hp new show ?thesis by metis
    next
      assume "k' = n" "q' = p" "accounts i k = Some q" "h q = heap i q"
      with c hp new show ?thesis by metis
    next
      assume "accounts i k = Some q" "h q = heap i q" "accounts i k' = Some q'" "h q' = heap i q'"
      with c inv show ?thesis unfolding db_inv_def by metis
    qed
  qed
  have "db_inv (i\<lparr>heap := h, accounts := m\<rparr>)"
    unfolding db_inv_def using 1 3 4 inv by (simp add: db_inv_def)
  then show ?thesis using CreateAccount_new [OF ord new] by (simp add: h_def m_def n_def)
qed

lemma CreateTransfer_loop_range:
  assumes inv: "db_inv i" and ord: "range_order ks (accounts i)"
  shows "CreateTransfer_loop (heap i) t (range_values ks (accounts i)) (None, None) =
         (accounts i (AccountOriginID t), accounts i (AccountDestinationID t))"
proof -
  let ?ps = "range_values ks (accounts i)"
  have ids: "accounts i k = Some p \<Longrightarrow> ID (heap i p) = k" for k p
    using inv by (simp add: db_inv_def)
  have mem: "p \<in> set ?ps \<longleftrightarrow> (\<exists>k. accounts i k = Some p)" for p
    using ord by (simp add: ran_range_values ran_def)
  have pick: "(\<exists>p\<in>set ?ps. ID (heap i p) = k) \<longleftrightarrow> accounts i k \<noteq> None" for k
  proof
    assume "\<exists>p\<in>set ?ps. ID (heap i p) = k"
    then obtain p k' where "accounts i k' = Some p" "ID (heap i p) = k" by (auto simp: mem)
    with ids [of k' p] show "accounts i k \<noteq> None" by simp
  next
    assume "accounts i k \<noteq> None"
    then obtain p where p: "accounts i k = Some p" by blast
    then have "p \<in> set ?ps" using mem by blast
    with ids [OF p] show "\<exists>p\<in>set ?ps. ID (heap i p) = k" by blast
  qed
  have uniq: "\<forall>p\<in>set ?ps. ID (heap i p) = k \<longrightarrow> p = the (accounts i k)" for k
    using ids by (auto simp: mem)
  have "fst (CreateTransfer_loop (heap i) t ?ps (None, None)) = accounts i (AccountOriginID t)"
    using CreateTransfer_loop_fst [OF uniq, of t None None] by (auto simp: pick)
  moreover have "snd (CreateTransfer_loop (heap i) t ?ps (None, None)) = accounts i (AccountDestinationID t)"
    using CreateTransfer_loop_snd [OF uniq, of t None None] by (auto simp: pick)
  ultimately show ?thesis by (simp add: prod_eq_iff)
qed

lemma CreateTransfer_not_found:
  assumes "db_inv i" "range_order ks (accounts i)"
    and "accounts i (AccountOriginID t) = None \<or> accounts i (AccountDestinationID t) = None"
  shows "CreateTransfer ks now t i = (Some ErrAccountNotFound, t, i)"
  using assms(3) by (auto simp: CreateTransfer_def CreateTransfer_loop_range [OF assms(1,2)] split: option.splits)

lemma CreateTransfer_not_enough:
  assumes "db_inv i" "range_order ks (accounts i)"
    and "accounts i (AccountOriginID t) = Some src" "accounts i (AccountDestinationID t) = Some dst"
    and "Balance (heap i src) < Amount t"
  shows "CreateTransfer ks now t i = (Some ErrNotEnoughFunds, t, i)"
  using assms(3-) by (simp add: CreateTransfer_def CreateTransfer_loop_range [OF assms(1,2)])

lemma CreateTransfer_done:
  assumes inv: "db_inv i" and ord: "range_order ks (accounts i)"
    and src: "accounts i (AccountOriginID t) = Some src" and dst: "accounts i (AccountDestinationID t) = Some dst"
    and enough: "\<not> Balance (heap i src) < Amount t"
  shows "CreateTransfer ks now t i =
    (None, t\<lparr>TransferID := int (card (dom (transfers i))) + 1, TransferCreatedAt := now\<rparr>,
     i\<lparr>heap := ((heap i)(src := (heap i src)\<lparr>Balance := Balance (heap i src) - Amount t\<rparr>))
                 (dst := (((heap i)(src := (heap i src)\<lparr>Balance := Balance (heap i src) - Amount t\<rparr>)) dst)
                    \<lparr>Balance := Balance (((heap i)(src := (heap i src)\<lparr>Balance := Balance (heap i src) - Amount t\<rparr>)) dst) + Amount t\<rparr>),
       transfers := (transfers i)(int (card (dom (transfers i))) + 1 \<mapsto>
                       t\<lparr>TransferID := int (card (dom (transfers i))) + 1, TransferCreatedAt := now\<rparr>)\<rparr>)"
proof -
  have ids: "ID (heap i src) = AccountOriginID t" "ID (heap i dst) = AccountDestinationID t"
    using inv src dst by (simp_all add: db_inv_def)
  define h1 where "h1 = (heap i)(src := (heap i src)\<lparr>Balance := Balance (heap i src) - Amount t\<rparr>)"
  define h2 where "h2 = h1(dst := (h1 dst)\<lparr>Balance := Balance (h1 dst) + Amount t\<rparr>)"
  have id2: "ID (h2 src) = AccountOriginID t" "ID (h2 dst) = AccountDestinationID t"
    using ids by (auto simp: h1_def h2_def)
  have same: "((accounts i)(ID (h2 src) \<mapsto> src))(ID (h2 dst) \<mapsto> dst) = accounts i"
    using src dst id2 by (auto simp: fun_eq_iff)
  have "CreateTransfer ks now t i =
    (None, t\<lparr>TransferID := int (card (dom (transfers i))) + 1, TransferCreatedAt := now\<rparr>,
     i\<lparr>heap := h2, accounts := ((accounts i)(ID (h2 src) \<mapsto> src))(ID (h2 dst) \<mapsto> dst),
       transfers := (transfers i)(int (card (dom (transfers i))) + 1 \<mapsto>
                       t\<lparr>TransferID := int (card (dom (transfers i))) + 1, TransferCreatedAt := now\<rparr>)\<rparr>)"
    using enough src dst
    by (simp add: CreateTransfer_def CreateTransfer_loop_range [OF inv ord] Let_def h1_def h2_def)
  also have "i\<lparr>heap := h2, accounts := ((accounts i)(ID (h2 src) \<mapsto> src))(ID (h2 dst) \<mapsto> dst),
       transfers := (transfers i)(int (card (dom (transfers i))) + 1 \<mapsto>
                       t\<lparr>TransferID := int (card (dom (transfers i))) + 1, TransferCreatedAt := now\<rparr>)\<rparr>
     = i\<lparr>heap := h2,
       transfers := (transfers i)(int (card (dom (transfers i))) + 1 \<mapsto>
                       t\<lparr>TransferID := int (card (dom (transfers i))) + 1, TransferCreatedAt := now\<rparr>)\<rparr>"
    unfolding same by simp
  finally show ?thesis unfolding h2_def h1_def .
qed

lemma db_inv_CreateTransfer:
  assumes inv: "db_inv i" and ord: "range_order ks (accounts i)"
  shows "db_inv (snd (snd (CreateTransfer ks now t i)))"
proof (cases "accounts i (AccountOriginID t) = None \<or> accounts i (AccountDestinationID t) = None")
  case True
  then show ?thesis using inv by (simp add: CreateTransfer_not_found [OF inv ord])
next
  case False
  then obtain src dst where src: "accounts i (AccountOriginID t) = Some src"
    and dst: "accounts i (AccountDestinationID t) = Some dst" by auto
  show ?thesis
  proof (cases "Balance (heap i src) < Amount t")
    case True
    then show ?thesis using inv by (simp add: CreateTransfer_not_enough [OF inv ord src dst])
  next
    case False
    define h1 where "h1 = (heap i)(src := (heap i src)\<lparr>Balance := Balance (heap i src) - Amount t\<rparr>)"
    define h2 where "h2 = h1(dst := (h1 dst)\<lparr>Balance := Balance (h1 dst) + Amount t\<rparr>)"
    define tr where "tr = (transfers i)(int (card (dom (transfers i))) + 1 \<mapsto>
                       t\<lparr>TransferID := int (card (dom (transfers i))) + 1, TransferCreatedAt := now\<rparr>)"
    have keep: "ID (h2 q) = ID (heap i q)" "CPF (h2 q) = CPF (heap i q)" for q
      by (simp_all add: h1_def h2_def)
    have d: "dom (transfers i) = {1..int (card (dom (transfers i)))}" using inv by (simp add: db_inv_def)
    have 2: "dom tr = {1..int (card (dom tr))}" unfolding tr_def by (rule dom_next [OF d])
    have "db_inv (i\<lparr>heap := h2, transfers := tr\<rparr>)"
      using inv 2 unfolding db_inv_def by (simp add: keep)
    then show ?thesis
      by (simp add: CreateTransfer_done [OF inv ord src dst False] h1_def h2_def tr_def)
  qed
qed

lemma db_inv_apply_op:
  assumes "db_inv i" "range_order (op_range x) (accounts i)"
  shows "db_inv (snd (apply_op x i))"
proof (cases x)
  case (OpCreateAccount ks now a)
  have "db_inv (snd (new_Account a i))" using assms(1) by (rule db_inv_new_Account)
  moreover have "range_order ks (accounts (snd (new_Account a i)))"
    using assms(2) OpCreateAccount by (simp add: new_Account_def)
  moreover have "fst (new_Account a i) < brk (snd (new_Account a i))" by (simp add: new_Account_def)
  ultimately have "db_inv (snd (CreateAccount ks now (fst (new_Account a i)) (snd (new_Account a i))))"
    by (rule db_inv_CreateAccount)
  then show ?thesis using OpCreateAccount by (simp add: split_beta)
next
  case (OpCreateTransfer ks now t)
  then show ?thesis using db_inv_CreateTransfer [OF assms(1), of ks now t] assms(2)
    by (simp add: split_beta)
qed

lemma db_inv_run: "db_inv i \<Longrightarrow> run i ops = Some j \<Longrightarrow> db_inv j"
  by (induction ops arbitrary: i) (auto split: if_splits dest: db_inv_apply_op)

lemma run_db_inv: "run NewInMemDB ops = Some i \<Longrightarrow> db_inv i"
  using db_inv_run [OF db_inv_NewInMemDB] .

section \<open>The example store\<close>

lemma range_order_Nil: "range_order [] Map.empty"
  by (simp add: range_order_def)

lemma run_two_accounts: "run NewInMemDB two_accounts = Some db2"
  by (simp add: two_accounts_def db2_def NewInMemDB_def new_Account_def CreateAccount_def
      range_order_def range_values_def List.map_filter_simps acc1_def acc2_def Let_def fun_upd_twist)

lemma range_order_db2: "range_order [1, 2] (accounts db2)" "range_order [2, 1] (accounts db2)"
  by (auto simp: range_order_def db2_def)

lemma db2_facts:
  "accounts db2 1 = Some 0" "accounts db2 2 = Some (Suc 0)" "accounts db2 1000 = None"
  "Balance (heap db2 0) = 100" "Balance (heap db2 (Suc 0)) = 50" "card (dom (transfers db2)) = 0"
  by (simp_all add: db2_def acc1_def acc2_def)

section \<open>Transfers\<close>

lemma run_account_ID:
  "run NewInMemDB ops = Some i \<Longrightarrow> accounts i k = Some p \<Longrightarrow> ID (heap i p) = k"
  using run_db_inv [of ops i] by (simp add: db_inv_def)

lemma run_transfer_fresh:
  "run NewInMemDB ops = Some i \<Longrightarrow> int (card (dom (transfers i))) + 1 \<notin> dom (transfers i)"
  using run_db_inv [of ops i] by (simp add: db_inv_def dom_next_fresh)

text \<open>
  C1. In a store reached from the empty one, a transfer between two different existing
  accounts \<open>A\<close> and \<open>B\<close> whose amount does not exceed the balance of \<open>A\<close> succeeds,
  whatever the order of the loop: the balance of \<open>A\<close> decreases by the amount, that of
  \<open>B\<close> increases by it, nothing else in the heap or the account map changes, and exactly one
  transfer is added, under an id that was not in use, with the origin, destination and
  amount of the request. When the amount is the whole balance, \<open>A\<close> is left with 0.
\<close>

theorem CreateTransfer_distinct_accounts:
  assumes run: "run NewInMemDB ops = Some i" and ord: "range_order ks (accounts i)"
    and A: "accounts i (AccountOriginID t) = Some A"
    and B: "accounts i (AccountDestinationID t) = Some B"
    and ne: "AccountOriginID t \<noteq> AccountDestinationID t"
    and enough: "Amount t \<le> Balance (heap i A)"
  shows "\<exists>i' t'. CreateTransfer ks now t i = (None, t', i') \<and>
           t' = t\<lparr>TransferID := int (card (dom (transfers i))) + 1, TransferCreatedAt := now\<rparr> \<and>
           heap i' = (heap i)(A := (heap i A)\<lparr>Balance := Balance (heap i A) - Amount t\<rparr>,
                              B := (heap i B)\<lparr>Balance := Balance (heap i B) + Amount t\<rparr>) \<and>
           A \<noteq> B \<and>
           Balance (heap i' A) = Balance (heap i A) - Amount t \<and>
           Balance (heap i' B) = Balance (heap i B) + Amount t \<and>
           (Amount t = Balance (heap i A) \<longrightarrow> Balance (heap i' A) = 0) \<and>
           accounts i' = accounts i \<and>
           TransferID t' \<notin> dom (transfers i) \<and>
           transfers i' = (transfers i)(TransferID t' \<mapsto> t')"
proof -
  have inv: "db_inv i" using run by (rule run_db_inv)
  have AB: "A \<noteq> B" using run_account_ID [OF run A] run_account_ID [OF run B] ne by auto
  have ge: "\<not> Balance (heap i A) < Amount t" using enough by simp
  show ?thesis
    using AB run_transfer_fresh [OF run]
    by (simp add: CreateTransfer_done [OF inv ord A B ge])
qed

theorem CreateTransfer_distinct_accounts_witness:
  "run NewInMemDB two_accounts = Some db2 \<and> range_order [1, 2] (accounts db2) \<and>
   accounts db2 (AccountOriginID t12) = Some 0 \<and> accounts db2 (AccountDestinationID t12) = Some 1 \<and>
   AccountOriginID t12 \<noteq> AccountDestinationID t12 \<and> Amount t12 = Balance (heap db2 0) \<and>
   fst (CreateTransfer [1, 2] 3 t12 db2) = None \<and>
   Balance (heap (snd (snd (CreateTransfer [1, 2] 3 t12 db2))) 0) = 0 \<and>
   Balance (heap (snd (snd (CreateTransfer [1, 2] 3 t12 db2))) 1) = 150 \<and>
   transfers (snd (snd (CreateTransfer [1, 2] 3 t12 db2))) 1 = Some (t12\<lparr>TransferID := 1, TransferCreatedAt := 3\<rparr>)"
proof -
  have h: "accounts db2 (AccountOriginID t12) = Some 0" "accounts db2 (AccountDestinationID t12) = Some 1"
    "AccountOriginID t12 \<noteq> AccountDestinationID t12" "Amount t12 \<le> Balance (heap db2 0)"
    "Amount t12 = Balance (heap db2 0)"
    by (simp_all add: t12_def db2_facts)
  from CreateTransfer_distinct_accounts [OF run_two_accounts range_order_db2(1) h(1-4), of 3]
  show ?thesis using h run_two_accounts range_order_db2(1) by (auto simp: db2_facts)
qed

text \<open>
  C2. In a store reached from the empty one, \<open>CreateTransfer\<close> returns
  \<open>ErrAccountNotFound\<close> when the origin or the destination is not in the store, and
  \<open>ErrNotEnoughFunds\<close> when both are and the balance of the origin is less than the
  amount; in both cases the state and the caller's \<open>Transfer\<close> are what they were.
\<close>

theorem CreateTransfer_failures:
  assumes run: "run NewInMemDB ops = Some i" and ord: "range_order ks (accounts i)"
  shows "(accounts i (AccountOriginID t) = None \<or> accounts i (AccountDestinationID t) = None \<longrightarrow>
            CreateTransfer ks now t i = (Some ErrAccountNotFound, t, i)) \<and>
         (\<forall>A B. accounts i (AccountOriginID t) = Some A \<and> accounts i (AccountDestinationID t) = Some B \<and>
            Balance (heap i A) < Amount t \<longrightarrow>
            CreateTransfer ks now t i = (Some ErrNotEnoughFunds, t, i))"
  using CreateTransfer_not_found [OF run_db_inv [OF run] ord, of t now]
    CreateTransfer_not_enough [OF run_db_inv [OF run] ord, of t _ _ now] by blast

theorem CreateTransfer_failures_witness:
  "run NewInMemDB two_accounts = Some db2 \<and> range_order [1, 2] (accounts db2) \<and>
   accounts db2 (AccountDestinationID t_missing) = None \<and>
   CreateTransfer [1, 2] 3 t_missing db2 = (Some ErrAccountNotFound, t_missing, db2) \<and>
   accounts db2 (AccountOriginID t_big) = Some 0 \<and> accounts db2 (AccountDestinationID t_big) = Some 1 \<and>
   Balance (heap db2 0) < Amount t_big \<and>
   CreateTransfer [1, 2] 3 t_big db2 = (Some ErrNotEnoughFunds, t_big, db2)"
proof -
  have h: "accounts db2 (AccountDestinationID t_missing) = None"
    "accounts db2 (AccountOriginID t_big) = Some 0" "accounts db2 (AccountDestinationID t_big) = Some 1"
    "Balance (heap db2 0) < Amount t_big"
    by (simp_all add: t_missing_def t_big_def db2_facts)
  from CreateTransfer_failures [OF run_two_accounts range_order_db2(1), of t_missing 3]
    CreateTransfer_failures [OF run_two_accounts range_order_db2(1), of t_big 3]
  show ?thesis using h run_two_accounts range_order_db2(1) by blast
qed

text \<open>
  C10. In a store reached from the empty one, a transfer from an existing account \<open>A\<close> to
  itself whose amount does not exceed its balance succeeds: both pointers are the same
  object, so the balance is decreased and then increased again and the heap is unchanged,
  and one transfer with origin and destination \<open>A\<close> is added under an unused id.
\<close>

theorem CreateTransfer_self:
  assumes run: "run NewInMemDB ops = Some i" and ord: "range_order ks (accounts i)"
    and A: "accounts i (AccountOriginID t) = Some A"
    and self: "AccountDestinationID t = AccountOriginID t"
    and enough: "Amount t \<le> Balance (heap i A)"
  shows "\<exists>i' t'. CreateTransfer ks now t i = (None, t', i') \<and>
           t' = t\<lparr>TransferID := int (card (dom (transfers i))) + 1, TransferCreatedAt := now\<rparr> \<and>
           heap i' = heap i \<and> accounts i' = accounts i \<and>
           AccountOriginID t' = ID (heap i A) \<and> AccountDestinationID t' = ID (heap i A) \<and>
           TransferID t' \<notin> dom (transfers i) \<and>
           transfers i' = (transfers i)(TransferID t' \<mapsto> t')"
proof -
  have inv: "db_inv i" using run by (rule run_db_inv)
  have B: "accounts i (AccountDestinationID t) = Some A" using A self by simp
  have ge: "\<not> Balance (heap i A) < Amount t" using enough by simp
  show ?thesis
    using run_transfer_fresh [OF run] run_account_ID [OF run A] self
    by (simp add: CreateTransfer_done [OF inv ord A B ge])
qed

theorem CreateTransfer_self_witness:
  "run NewInMemDB two_accounts = Some db2 \<and> range_order [2, 1] (accounts db2) \<and>
   accounts db2 (AccountOriginID t11) = Some 0 \<and> AccountDestinationID t11 = AccountOriginID t11 \<and>
   Amount t11 \<le> Balance (heap db2 0) \<and>
   fst (CreateTransfer [2, 1] 3 t11 db2) = None \<and>
   heap (snd (snd (CreateTransfer [2, 1] 3 t11 db2))) = heap db2 \<and>
   transfers (snd (snd (CreateTransfer [2, 1] 3 t11 db2))) 1 = Some (t11\<lparr>TransferID := 1, TransferCreatedAt := 3\<rparr>)"
proof -
  have h: "accounts db2 (AccountOriginID t11) = Some 0" "AccountDestinationID t11 = AccountOriginID t11"
    "Amount t11 \<le> Balance (heap db2 0)"
    by (simp_all add: t11_def db2_facts)
  from CreateTransfer_self [OF run_two_accounts range_order_db2(2) h, of 3]
  show ?thesis using h run_two_accounts range_order_db2(2) by (auto simp: db2_facts)
qed

section \<open>Creating accounts\<close>

lemma CreateAccount_cases:
  "fst (CreateAccount ks now account i) = None \<or> CreateAccount ks now account i = (Some ErrAccountAlreadyExists, i)"
  by (simp add: CreateAccount_def Let_def)

lemma run_CPF_unique:
  "run NewInMemDB ops = Some j \<Longrightarrow> accounts j k = Some q \<Longrightarrow> accounts j k' = Some q' \<Longrightarrow> k \<noteq> k' \<Longrightarrow>
   CPF (heap j q) \<noteq> CPF (heap j q')"
  using run_db_inv [of ops j] unfolding db_inv_def by blast

text \<open>
  C4. Whatever the order of the loop, \<open>CreateAccount\<close> returns
  \<open>ErrAccountAlreadyExists\<close> exactly when an account of the store has the \<open>CPF\<close> of the
  account passed in; it returns no other error, and when it fails the state is unchanged.
  Consequently, in every store reached from the empty one, the accounts under two different
  keys have different \<open>CPF\<close>s.
\<close>

theorem CreateAccount_duplicate_CPF:
  assumes ord: "range_order ks (accounts i)" and run: "run NewInMemDB ops = Some j"
  shows "(fst (CreateAccount ks now account i) = Some ErrAccountAlreadyExists \<longleftrightarrow>
            (\<exists>k q. accounts i k = Some q \<and> CPF (heap i q) = CPF (heap i account))) \<and>
         (fst (CreateAccount ks now account i) \<noteq> None \<longrightarrow>
            CreateAccount ks now account i = (Some ErrAccountAlreadyExists, i)) \<and>
         (\<forall>k k' q q'. accounts j k = Some q \<and> accounts j k' = Some q' \<and> k \<noteq> k' \<longrightarrow>
            CPF (heap j q) \<noteq> CPF (heap j q'))"
proof (intro conjI)
  show "fst (CreateAccount ks now account i) = Some ErrAccountAlreadyExists \<longleftrightarrow>
        (\<exists>k q. accounts i k = Some q \<and> CPF (heap i q) = CPF (heap i account))"
    using CreateAccount_loop_range [OF ord, of "CPF (heap i account)"]
    by (simp add: CreateAccount_def Let_def)
  show "fst (CreateAccount ks now account i) \<noteq> None \<longrightarrow>
        CreateAccount ks now account i = (Some ErrAccountAlreadyExists, i)"
    using CreateAccount_cases [of ks now account i] by auto
  show "\<forall>k k' q q'. accounts j k = Some q \<and> accounts j k' = Some q' \<and> k \<noteq> k' \<longrightarrow>
        CPF (heap j q) \<noteq> CPF (heap j q')"
    using run_CPF_unique [OF run] by blast
qed

theorem CreateAccount_duplicate_CPF_witness:
  "range_order [1, 2] (accounts (snd (new_Account acc3 db2))) \<and> run NewInMemDB two_accounts = Some db2 \<and>
   accounts (snd (new_Account acc3 db2)) 1 = Some 0 \<and>
   CPF (heap (snd (new_Account acc3 db2)) 0) = CPF (heap (snd (new_Account acc3 db2)) 2) \<and>
   CreateAccount [1, 2] 3 2 (snd (new_Account acc3 db2)) = (Some ErrAccountAlreadyExists, snd (new_Account acc3 db2)) \<and>
   accounts db2 1 = Some 0 \<and> accounts db2 2 = Some 1 \<and> CPF (heap db2 0) \<noteq> CPF (heap db2 1)"
proof -
  let ?i = "snd (new_Account acc3 db2)"
  have ord: "range_order [1, 2] (accounts ?i)"
    using range_order_db2(1) by (simp add: new_Account_def)
  have h: "accounts ?i 1 = Some 0" "CPF (heap ?i 0) = CPF (heap ?i 2)"
    by (simp_all add: new_Account_def db2_def acc1_def acc3_def)
  have g: "accounts db2 1 = Some 0" "accounts db2 2 = Some 1" "(1::int) \<noteq> 2"
    by (simp_all add: db2_def)
  from CreateAccount_duplicate_CPF [OF ord run_two_accounts, of 3 2]
  show ?thesis using ord run_two_accounts h g by (metis option.distinct(1))
qed

section \<open>Listing accounts\<close>

text \<open>\<open>FindAllAccounts\<close> returns every stored pointer, each once.\<close>

lemma FindAllAccounts_all:
  assumes "range_order ks (accounts i)"
  shows "set (FindAllAccounts ks i) = ran (accounts i)" "length (FindAllAccounts ks i) = card (dom (accounts i))"
proof -
  show "set (FindAllAccounts ks i) = ran (accounts i)"
    using assms by (simp add: FindAllAccounts_def ran_range_values)
  have "\<forall>k\<in>set ks. accounts i k \<noteq> None" using assms by (auto simp: range_order_def)
  then have "length (range_values ks (accounts i)) = length ks"
    by (induction ks) (auto simp: range_values_def List.map_filter_simps split: option.splits)
  moreover have "card (dom (accounts i)) = length ks"
    using assms by (metis distinct_card range_order_def)
  ultimately show "length (FindAllAccounts ks i) = card (dom (accounts i))"
    by (simp add: FindAllAccounts_def)
qed

text \<open>
  C8. \<open>FindAllAccounts\<close> of the in-memory store returns the accounts in the order in which
  the \<open>range\<close> loop visits the map, not by creation time: on the store of the two
  accounts created at instants 1 and 2, a loop that visits key 2 first returns the second
  account before the first.
\<close>

theorem FindAllAccounts_not_sorted:
  "run NewInMemDB two_accounts = Some db2 \<and> range_order [2, 1] (accounts db2) \<and>
   map ID (FindAllAccounts_values [2, 1] db2) = [2, 1] \<and>
   map CreatedAt (FindAllAccounts_values [2, 1] db2) = [2, 1] \<and>
   \<not> sorted (map CreatedAt (FindAllAccounts_values [2, 1] db2))"
  using run_two_accounts range_order_db2(2)
  by (simp add: FindAllAccounts_values_def FindAllAccounts_def range_values_def
      List.map_filter_simps db2_def acc1_def acc2_def)

section \<open>Balances\<close>

lemma balances_nonneg_CreateAccount:
  assumes inv: "db_inv i" and ord: "range_order ks (accounts i)" and nn: "0 \<le> Balance a"
    and bal: "balances_nonneg i"
  shows "balances_nonneg (snd (apply_op (OpCreateAccount ks now a) i))"
proof -
  define i1 where "i1 = i\<lparr>heap := (heap i)(brk i := a), brk := Suc (brk i)\<rparr>"
  have old: "accounts i k = Some q \<Longrightarrow> q \<noteq> brk i \<and> heap i1 q = heap i q" for k q
    using inv by (auto simp: db_inv_def i1_def)
  have ord1: "range_order ks (accounts i1)" using ord by (simp add: i1_def)
  have bal1: "balances_nonneg i1"
    using bal old by (auto simp: balances_nonneg_def i1_def)
  have ap: "apply_op (OpCreateAccount ks now a) i = CreateAccount ks now (brk i) i1"
    by (simp add: new_Account_def i1_def)
  show ?thesis
  proof (cases "\<exists>k q. accounts i1 k = Some q \<and> CPF (heap i1 q) = CPF (heap i1 (brk i))")
    case True
    then have "CreateAccount ks now (brk i) i1 = (Some ErrAccountAlreadyExists, i1)"
      using CreateAccount_exists [OF ord1] by blast
    then show ?thesis using bal1 by (simp only: ap snd_conv)
  next
    case False
    then have new: "\<forall>k q. accounts i1 k = Some q \<longrightarrow> CPF (heap i1 q) \<noteq> CPF (heap i1 (brk i))" by blast
    have a: "Balance (heap i1 (brk i)) = Balance a" by (simp add: i1_def)
    show ?thesis
      unfolding ap CreateAccount_new [OF ord1 new] balances_nonneg_def
      using bal1 nn a old by (auto simp: balances_nonneg_def i1_def split: if_splits)
  qed
qed

lemma balances_nonneg_CreateTransfer:
  assumes inv: "db_inv i" and ord: "range_order ks (accounts i)" and nn: "0 \<le> Amount t"
    and bal: "balances_nonneg i"
  shows "balances_nonneg (snd (snd (CreateTransfer ks now t i)))"
proof (cases "accounts i (AccountOriginID t) = None \<or> accounts i (AccountDestinationID t) = None")
  case True
  then show ?thesis using bal by (simp add: CreateTransfer_not_found [OF inv ord])
next
  case False
  then obtain src dst where src: "accounts i (AccountOriginID t) = Some src"
    and dst: "accounts i (AccountDestinationID t) = Some dst" by auto
  show ?thesis
  proof (cases "Balance (heap i src) < Amount t")
    case True
    then show ?thesis using bal by (simp add: CreateTransfer_not_enough [OF inv ord src dst])
  next
    case False
    have "0 \<le> Balance (heap i src)" "0 \<le> Balance (heap i dst)"
      using bal src dst by (auto simp: balances_nonneg_def)
    then show ?thesis
      using bal False nn unfolding CreateTransfer_done [OF inv ord src dst False]
      by (auto simp: balances_nonneg_def)
  qed
qed

lemma balances_nonneg_apply_op:
  assumes "db_inv i" "range_order (op_range x) (accounts i)" "op_nonneg x" "balances_nonneg i"
  shows "balances_nonneg (snd (apply_op x i))"
proof (cases x)
  case (OpCreateAccount ks now a)
  then show ?thesis using assms balances_nonneg_CreateAccount [of i ks a now] by simp
next
  case (OpCreateTransfer ks now t)
  then show ?thesis using assms balances_nonneg_CreateTransfer [of i ks t now] by (simp add: split_beta)
qed

lemma balances_nonneg_run:
  "db_inv i \<Longrightarrow> balances_nonneg i \<Longrightarrow> \<forall>x\<in>set ops. op_nonneg x \<Longrightarrow> run i ops = Some j \<Longrightarrow> balances_nonneg j"
proof (induction ops arbitrary: i)
  case Nil
  then show ?case by simp
next
  case (Cons x xs)
  from Cons.prems(4) have ord: "range_order (op_range x) (accounts i)"
    and r: "run (snd (apply_op x i)) xs = Some j" by (auto split: if_splits)
  have "db_inv (snd (apply_op x i))" using Cons.prems(1) ord by (rule db_inv_apply_op)
  moreover have "balances_nonneg (snd (apply_op x i))"
    using Cons.prems(1) ord Cons.prems(3) Cons.prems(2) by (auto intro: balances_nonneg_apply_op)
  ultimately show ?case using Cons.IH [OF _ _ _ r] Cons.prems(3) by simp
qed

lemma run_append: "run i (xs @ ys) = (case run i xs of None \<Rightarrow> None | Some j \<Rightarrow> run j ys)"
  by (induction xs arbitrary: i) auto

lemma run_three_ops: "run NewInMemDB three_ops = Some db3"
  using range_order_db2(1)
  by (simp add: three_ops_def run_append run_two_accounts db3_def split_beta)

text \<open>
  C3, as the code has it. \<open>CreateAccount\<close> stores the balance it is given and
  \<open>CreateTransfer\<close> compares the amount with the balance of the origin only. In a sequence
  of operations from the empty store in which every account is created with a non-negative
  balance and every transfer has a non-negative amount, every balance is non-negative after
  each operation (\<open>take n ops\<close> is the sequence up to the \<open>n\<close>-th operation).
\<close>

theorem balances_nonneg_after_each_operation:
  assumes "\<forall>x\<in>set ops. op_nonneg x" and "run NewInMemDB (take n ops) = Some j"
    and "accounts j k = Some p"
  shows "0 \<le> Balance (heap j p)"
proof -
  have "\<forall>x\<in>set (take n ops). op_nonneg x" using assms(1) by (meson in_set_takeD)
  moreover have "balances_nonneg NewInMemDB" by (simp add: balances_nonneg_def NewInMemDB_def)
  ultimately have "balances_nonneg j"
    using balances_nonneg_run [OF db_inv_NewInMemDB _ _ assms(2)] by blast
  then show ?thesis using assms(3) by (simp add: balances_nonneg_def)
qed

theorem balances_nonneg_after_each_operation_witness:
  "list_all op_nonneg three_ops \<and> run NewInMemDB (take 3 three_ops) = Some db3 \<and>
   accounts db3 1 = Some 0 \<and> accounts db3 2 = Some 1 \<and>
   0 \<le> Balance (heap db3 0) \<and> 0 \<le> Balance (heap db3 1)"
proof -
  have nn: "\<forall>x\<in>set three_ops. op_nonneg x"
    by (simp add: three_ops_def two_accounts_def acc1_def acc2_def t12_def)
  have r: "run NewInMemDB (take 3 three_ops) = Some db3"
    using run_three_ops by (simp add: three_ops_def two_accounts_def)
  have inv: "db_inv db2" using run_two_accounts by (rule run_db_inv)
  have h: "accounts db2 (AccountOriginID t12) = Some 0" "accounts db2 (AccountDestinationID t12) = Some 1"
    "\<not> Balance (heap db2 0) < Amount t12"
    by (simp_all add: t12_def db2_facts)
  have a: "accounts db3 1 = Some 0" "accounts db3 2 = Some 1"
    unfolding db3_def CreateTransfer_done [OF inv range_order_db2(1) h] by (simp_all add: db2_facts)
  from balances_nonneg_after_each_operation [OF nn r a(1)]
    balances_nonneg_after_each_operation [OF nn r a(2)]
  show ?thesis using nn r a by (simp add: list_all_iff)
qed

text \<open>
  C3, as stated, fails: creating an account with balance \<open>-1\<close> in the empty store commits
  and leaves that balance in the store; and on the store of the two accounts (balances 100
  and 50) a transfer of \<open>-60\<close> from the first to the second commits and leaves the second
  with \<open>-10\<close>.
\<close>

theorem negative_balance_counterexample:
  "range_order [] (accounts NewInMemDB) \<and>
   fst (apply_op (OpCreateAccount [] 1 acc_neg) NewInMemDB) = None \<and>
   accounts (snd (apply_op (OpCreateAccount [] 1 acc_neg) NewInMemDB)) 1 = Some 0 \<and>
   Balance (heap (snd (apply_op (OpCreateAccount [] 1 acc_neg) NewInMemDB)) 0) = - 1 \<and>
   run NewInMemDB two_accounts = Some db2 \<and> range_order [1, 2] (accounts db2) \<and>
   fst (apply_op (OpCreateTransfer [1, 2] 3 t_neg) db2) = None \<and>
   accounts (snd (apply_op (OpCreateTransfer [1, 2] 3 t_neg) db2)) 2 = Some 1 \<and>
   Balance (heap (snd (apply_op (OpCreateTransfer [1, 2] 3 t_neg) db2)) 1) = - 10"
proof -
  have 1: "range_order [] (accounts NewInMemDB)" by (simp add: NewInMemDB_def range_order_def)
  have 2: "apply_op (OpCreateAccount [] 1 acc_neg) NewInMemDB =
        (None, \<lparr>heap = (\<lambda>_. zeroAccount)(0 := acc_neg\<lparr>ID := 1, CreatedAt := 1\<rparr>), brk = 1,
                accounts = [1 \<mapsto> 0], transfers = Map.empty\<rparr>)"
    by (simp add: NewInMemDB_def new_Account_def CreateAccount_def range_values_def
        List.map_filter_simps Let_def)
  have inv: "db_inv db2" using run_two_accounts by (rule run_db_inv)
  have h: "accounts db2 (AccountOriginID t_neg) = Some 0" "accounts db2 (AccountDestinationID t_neg) = Some 1"
    "\<not> Balance (heap db2 0) < Amount t_neg"
    by (simp_all add: t_neg_def db2_facts)
  have 3: "fst (apply_op (OpCreateTransfer [1, 2] 3 t_neg) db2) = None"
    "accounts (snd (apply_op (OpCreateTransfer [1, 2] 3 t_neg) db2)) 2 = Some 1"
    "Balance (heap (snd (apply_op (OpCreateTransfer [1, 2] 3 t_neg) db2)) 1) = - 10"
    unfolding apply_op.simps CreateTransfer_done [OF inv range_order_db2(1) h]
    by (simp_all add: db2_facts t_neg_def)
  show ?thesis using 1 2 3 run_two_accounts range_order_db2(1) by (simp add: acc_neg_def)
qed

text \<open>
  The handlers reach the store through these two operations only, with the balance and
  the amount of the request body; \<open>createAccount\<close> accepts a negative balance.
\<close>

lemma createAccount_state:
  "snd (createAccount HashPassword body ks now i) = i \<or>
   (\<exists>b hash. body = Some b \<and>
      snd (createAccount HashPassword body ks now i) =
      snd (apply_op (OpCreateAccount ks now
             \<lparr>ID = 0, Name = body_Name b, CPF = body_CPF b, Secret = hash,
              Balance = body_Balance b, CreatedAt = zeroTime\<rparr>) i))"
proof (cases body)
  case None
  then show ?thesis by (simp add: createAccount_def)
next
  case (Some b)
  show ?thesis
  proof (cases "validateBody (validate_createAccount b)")
    case res: (Some res)
    then show ?thesis using Some by (simp add: createAccount_def)
  next
    case ok: None
    show ?thesis
    proof (cases "HashPassword (body_Secret b)")
      case (Inl err)
      then show ?thesis using Some ok by (simp add: createAccount_def)
    next
      case (Inr hash)
      have "snd (createAccount HashPassword body ks now i) =
            snd (apply_op (OpCreateAccount ks now
             \<lparr>ID = 0, Name = body_Name b, CPF = body_CPF b, Secret = hash,
              Balance = body_Balance b, CreatedAt = zeroTime\<rparr>) i)"
        using Some ok Inr by (simp add: createAccount_def split: prod.splits option.splits)
      then show ?thesis using Some by blast
    qed
  qed
qed

lemma createTransfer_state:
  "snd (createTransfer ctx body ks now i) = i \<or>
   (\<exists>account b. ctx = Some account \<and> body = Some b \<and>
      snd (createTransfer ctx body ks now i) =
      snd (apply_op (OpCreateTransfer ks now
             \<lparr>TransferID = 0, AccountOriginID = ID (heap i account),
              AccountDestinationID = body_AccountDestinationID b, Amount = body_Amount b,
              TransferCreatedAt = zeroTime\<rparr>) i))"
proof (cases ctx)
  case None
  then show ?thesis by (simp add: createTransfer_def)
next
  case account: (Some account)
  show ?thesis
  proof (cases body)
    case None
    then show ?thesis using account by (simp add: createTransfer_def)
  next
    case (Some b)
    show ?thesis
    proof (cases "validateBody (validate_createTransfer b)")
      case res: (Some res)
      then show ?thesis using account Some by (simp add: createTransfer_def)
    next
      case None
      have "snd (createTransfer ctx body ks now i) =
        snd (apply_op (OpCreateTransfer ks now
             \<lparr>TransferID = 0, AccountOriginID = ID (heap i account),
              AccountDestinationID = body_AccountDestinationID b, Amount = body_Amount b,
              TransferCreatedAt = zeroTime\<rparr>) i)"
        using account Some None by (simp add: createTransfer_def split: prod.splits option.splits)
      then show ?thesis using account Some by blast
    qed
  qed
qed

lemma createAccount_negative_balance:
  assumes "HashPassword ''firstsecret'' = Inr hash"
  shows "createAccount HashPassword
           (Some \<lparr>body_Name = ''first account'', body_CPF = ''111.111.111-11'',
                  body_Secret = ''firstsecret'', body_Balance = - 1\<rparr>) [] 1 NewInMemDB =
         (Response StatusCreated
            (AccountBody \<lparr>ID = 1, Name = ''first account'', CPF = ''111.111.111-11'', Secret = hash,
                           Balance = - 1, CreatedAt = 1\<rparr>),
          \<lparr>heap = (\<lambda>_. zeroAccount)
                    (0 := \<lparr>ID = 1, Name = ''first account'', CPF = ''111.111.111-11'', Secret = hash,
                           Balance = - 1, CreatedAt = 1\<rparr>),
            brk = 1, accounts = [1 \<mapsto> 0], transfers = Map.empty\<rparr>)"
  using assms
  by (simp add: createAccount_def validateBody_def validate_createAccount_def cpf_regexp_def
      RuneCountInString_def NewInMemDB_def new_Account_def CreateAccount_def range_values_def
      List.map_filter_simps Let_def)

section \<open>The transfer handler\<close>

lemma createTransfer_no_request:
  "createTransfer None body ks now i = (renderError StatusForbidden codeMissingBearerToken, i)"
  "createTransfer (Some account) None ks now i = (Response StatusBadRequest NoBody, i)"
  by (simp_all add: createTransfer_def)

text \<open>
  C5, as the code has it. For an authenticated account of a store reached from the empty
  one and a request whose amount is not zero, \<open>createTransfer\<close> records the transfer exactly
  when the destination id is not zero, names an account of the store, and the amount is not
  greater than the balance of the origin; the sign of the amount is not examined. Every
  other such request is answered without \<open>StatusCreated\<close> and leaves the state unchanged.
\<close>

theorem createTransfer_accepted_iff:
  assumes run: "run NewInMemDB ops = Some i" and ord: "range_order ks (accounts i)"
    and ctx: "accounts i k = Some account"
    and amount: "body_Amount b \<noteq> 0"
  shows
    "(body_AccountDestinationID b \<noteq> 0 \<and> accounts i (body_AccountDestinationID b) \<noteq> None \<and>
      body_Amount b \<le> Balance (heap i account) \<longrightarrow>
        (\<exists>t i'. createTransfer (Some account) (Some b) ks now i = (Response StatusCreated (TransferBody t), i') \<and>
           AccountOriginID t = k \<and> AccountDestinationID t = body_AccountDestinationID b \<and>
           Amount t = body_Amount b \<and> TransferID t \<notin> dom (transfers i) \<and>
           transfers i' = (transfers i)(TransferID t \<mapsto> t))) \<and>
     (\<not> (body_AccountDestinationID b \<noteq> 0 \<and> accounts i (body_AccountDestinationID b) \<noteq> None \<and>
         body_Amount b \<le> Balance (heap i account)) \<longrightarrow>
        snd (createTransfer (Some account) (Some b) ks now i) = i \<and>
        (\<forall>t. fst (createTransfer (Some account) (Some b) ks now i) \<noteq> Response StatusCreated (TransferBody t)))"
proof -
  define t0 where "t0 = \<lparr>TransferID = 0, AccountOriginID = ID (heap i account),
     AccountDestinationID = body_AccountDestinationID b, Amount = body_Amount b,
     TransferCreatedAt = zeroTime\<rparr>"
  have inv: "db_inv i" using run by (rule run_db_inv)
  have k: "ID (heap i account) = k" using run ctx by (rule run_account_ID)
  have src: "accounts i (AccountOriginID t0) = Some account" using ctx k by (simp add: t0_def)
  have unfold: "createTransfer (Some account) (Some b) ks now i =
     (if body_AccountDestinationID b = 0
      then (Response StatusUnprocessableEntity
             (ErrorBody \<lparr>Code = codeValidationError, Details = ''accountdestinationid is required''\<rparr>), i)
      else case CreateTransfer ks now t0 i of
             (Some err, transfer, i') \<Rightarrow>
               (if err = ErrAccountNotFound
                then renderError StatusUnprocessableEntity codeAccountNotFound
                else if err = ErrNotEnoughFunds
                then renderError StatusUnprocessableEntity codeAccountFundsInsuficient
                else renderServerError, i')
           | (None, transfer, i') \<Rightarrow> (Response StatusCreated (TransferBody transfer), i'))"
    by (simp add: createTransfer_def validateBody_def validate_createTransfer_def t0_def ToLower_def)
  show ?thesis
  proof (cases "body_AccountDestinationID b = 0")
    case True
    then show ?thesis by (simp add: unfold)
  next
    case nz: False
    show ?thesis
    proof (cases "accounts i (body_AccountDestinationID b)")
      case None
      then have "accounts i (AccountOriginID t0) = None \<or> accounts i (AccountDestinationID t0) = None"
        by (simp add: t0_def)
      from CreateTransfer_not_found [OF inv ord this, of now] None nz show ?thesis
        by (simp add: unfold renderError_def)
    next
      case (Some B)
      then have dst: "accounts i (AccountDestinationID t0) = Some B" by (simp add: t0_def)
      show ?thesis
      proof (cases "Balance (heap i account) < Amount t0")
        case True
        from CreateTransfer_not_enough [OF inv ord src dst True, of now] True show ?thesis
          by (simp add: unfold nz renderError_def t0_def)
      next
        case False
        have amt: "body_Amount b \<le> Balance (heap i account)" using False by (simp add: t0_def)
        have ok: "body_AccountDestinationID b \<noteq> 0 \<and> accounts i (body_AccountDestinationID b) \<noteq> None \<and>
                  body_Amount b \<le> Balance (heap i account)"
          using nz Some amt by simp
        have "\<exists>t i'. createTransfer (Some account) (Some b) ks now i = (Response StatusCreated (TransferBody t), i') \<and>
           AccountOriginID t = k \<and> AccountDestinationID t = body_AccountDestinationID b \<and>
           Amount t = body_Amount b \<and> TransferID t \<notin> dom (transfers i) \<and>
           transfers i' = (transfers i)(TransferID t \<mapsto> t)"
          unfolding unfold CreateTransfer_done [OF inv ord src dst False]
          using nz k run_transfer_fresh [OF run] by (simp add: t0_def)
        then show ?thesis using ok by blast
      qed
    qed
  qed
qed

theorem createTransfer_accepted_iff_witness:
  "run NewInMemDB two_accounts = Some db2 \<and> range_order [1, 2] (accounts db2) \<and>
   accounts db2 1 = Some 0 \<and> body_Amount body_all \<noteq> 0 \<and>
   body_AccountDestinationID body_all \<noteq> 0 \<and> accounts db2 (body_AccountDestinationID body_all) \<noteq> None \<and>
   body_Amount body_all \<le> Balance (heap db2 0) \<and>
   (\<exists>t i'. createTransfer (Some 0) (Some body_all) [1, 2] 3 db2 = (Response StatusCreated (TransferBody t), i') \<and>
      Amount t = 100 \<and> transfers i' = (transfers db2)(TransferID t \<mapsto> t)) \<and>
   body_Amount body_big \<noteq> 0 \<and> \<not> body_Amount body_big \<le> Balance (heap db2 0) \<and>
   snd (createTransfer (Some 0) (Some body_big) [1, 2] 3 db2) = db2"
proof -
  have h: "accounts db2 1 = Some 0" "body_AccountDestinationID body_all \<noteq> 0"
    "accounts db2 (body_AccountDestinationID body_all) \<noteq> None"
    "body_Amount body_all \<le> Balance (heap db2 0)" "\<not> body_Amount body_big \<le> Balance (heap db2 0)"
    "body_Amount body_all = 100"
    by (simp_all add: db2_facts body_all_def body_big_def)
  have nz: "body_Amount body_all \<noteq> 0" "body_Amount body_big \<noteq> 0"
    by (simp_all add: body_all_def body_big_def)
  from createTransfer_accepted_iff [OF run_two_accounts range_order_db2(1) h(1) nz(1), of 3]
    createTransfer_accepted_iff [OF run_two_accounts range_order_db2(1) h(1) nz(2), of 3]
  show ?thesis using h nz run_two_accounts range_order_db2(1) by (metis (no_types, lifting))
qed

text \<open>
  C5, as stated, fails: on the store of the two accounts, the request of account 1 to
  transfer \<open>-5\<close> to account 2 is answered with \<open>StatusCreated\<close>, the transfer is recorded,
  and the balances become 105 and 45.
\<close>

theorem createTransfer_negative_amount:
  "run NewInMemDB two_accounts = Some db2 \<and> range_order [1, 2] (accounts db2) \<and>
   accounts db2 1 = Some 0 \<and> \<not> 0 < body_Amount body_neg \<and>
   fst (createTransfer (Some 0) (Some body_neg) [1, 2] 3 db2) =
     Response StatusCreated (TransferBody \<lparr>TransferID = 1, AccountOriginID = 1, AccountDestinationID = 2,
                                            Amount = - 5, TransferCreatedAt = 3\<rparr>) \<and>
   transfers (snd (createTransfer (Some 0) (Some body_neg) [1, 2] 3 db2)) 1 =
     Some \<lparr>TransferID = 1, AccountOriginID = 1, AccountDestinationID = 2, Amount = - 5, TransferCreatedAt = 3\<rparr> \<and>
   Balance (heap (snd (createTransfer (Some 0) (Some body_neg) [1, 2] 3 db2)) 0) = 105 \<and>
   Balance (heap (snd (createTransfer (Some 0) (Some body_neg) [1, 2] 3 db2)) 1) = 45"
proof -
  define t0 where "t0 = \<lparr>TransferID = 0, AccountOriginID = 1, AccountDestinationID = 2, Amount = - 5,
     TransferCreatedAt = zeroTime\<rparr>"
  have inv: "db_inv db2" using run_two_accounts by (rule run_db_inv)
  have h: "accounts db2 (AccountOriginID t0) = Some 0" "accounts db2 (AccountDestinationID t0) = Some 1"
    "\<not> Balance (heap db2 0) < Amount t0"
    by (simp_all add: t0_def db2_facts)
  have u: "createTransfer (Some 0) (Some body_neg) [1, 2] 3 db2 =
     (case CreateTransfer [1, 2] 3 t0 db2 of
        (Some err, transfer, i') \<Rightarrow>
               (if err = ErrAccountNotFound
                then renderError StatusUnprocessableEntity codeAccountNotFound
                else if err = ErrNotEnoughFunds
                then renderError StatusUnprocessableEntity codeAccountFundsInsuficient
                else renderServerError, i')
      | (None, transfer, i') \<Rightarrow> (Response StatusCreated (TransferBody transfer), i'))"
    by (simp add: createTransfer_def validateBody_def validate_createTransfer_def body_neg_def t0_def
        db2_def acc1_def)
  show ?thesis
    unfolding u CreateTransfer_done [OF inv range_order_db2(1) h]
    using run_two_accounts range_order_db2(1)
    by (simp add: db2_facts t0_def body_neg_def)
qed

section \<open>The access gate\<close>

lemma FindAccountByID_not_found:
  "\<forall>k p. accounts i k = Some p \<longrightarrow> ID (heap i p) \<noteq> accountID \<Longrightarrow>
   FindAccountByID ks accountID i = Inl ErrAccountNotFound"
proof -
  assume a: "\<forall>k p. accounts i k = Some p \<longrightarrow> ID (heap i p) \<noteq> accountID"
  have "FindAccountByID_loop (heap i) accountID (range_values ks (accounts i)) = None"
    unfolding FindAccountByID_loop_None using a by (auto simp: set_range_values)
  then show ?thesis by (simp add: FindAccountByID_def)
qed

text \<open>
  C9. A credential whose token decodes to the id of no account in the store is rejected
  with \<open>StatusForbidden\<close> and \<open>codeInvalidBearerToken\<close>, and that response is the one
  given to a credential whose token does not decode, in any state and for any order of the
  loop.
\<close>

theorem requireLogin_unknown_account:
  assumes "bearerToken TrimSpace header \<noteq> []"
    and "DecodeToken jwtSecret (bearerToken TrimSpace header) = Inr accountID"
    and "\<forall>k p. accounts i k = Some p \<longrightarrow> ID (heap i p) \<noteq> accountID"
    and "bearerToken TrimSpace header' \<noteq> []"
    and "DecodeToken jwtSecret (bearerToken TrimSpace header') = Inl err"
  shows "requireLogin TrimSpace DecodeToken jwtSecret ks header i =
           Rejected (Response StatusForbidden (ErrorBody \<lparr>Code = codeInvalidBearerToken, Details = []\<rparr>)) \<and>
         requireLogin TrimSpace DecodeToken jwtSecret ks header i =
           requireLogin TrimSpace DecodeToken jwtSecret ks' header' i'"
  using assms FindAccountByID_not_found [OF assms(3), of ks]
  by (simp add: requireLogin_def Let_def renderError_def)

theorem requireLogin_unknown_account_witness:
  "bearerToken TrimSpace_ascii ''Bearer token-of-1000'' \<noteq> [] \<and>
   DecodeToken_example ''secret'' (bearerToken TrimSpace_ascii ''Bearer token-of-1000'') = Inr 1000 \<and>
   accounts db2 1 = Some 0 \<and> ID (heap db2 0) \<noteq> 1000 \<and>
   bearerToken TrimSpace_ascii ''bearer notavalidjwt'' \<noteq> [] \<and>
   DecodeToken_example ''secret'' (bearerToken TrimSpace_ascii ''bearer notavalidjwt'') = Inl () \<and>
   requireLogin TrimSpace_ascii DecodeToken_example ''secret'' [1, 2] ''Bearer token-of-1000'' db2 =
     Rejected (Response StatusForbidden (ErrorBody \<lparr>Code = codeInvalidBearerToken, Details = []\<rparr>)) \<and>
   requireLogin TrimSpace_ascii DecodeToken_example ''secret'' [1, 2] ''Bearer token-of-1000'' db2 =
     requireLogin TrimSpace_ascii DecodeToken_example ''secret'' [2, 1] ''bearer notavalidjwt'' db2"
proof -
  have t: "bearerToken TrimSpace_ascii ''Bearer token-of-1000'' = ''token-of-1000''"
    "bearerToken TrimSpace_ascii ''bearer notavalidjwt'' = ''notavalidjwt''"
    by (simp_all add: bearerToken_def TrimSpace_ascii_def isSpace_def)
  have h: "bearerToken TrimSpace_ascii ''Bearer token-of-1000'' \<noteq> []"
    "DecodeToken_example ''secret'' (bearerToken TrimSpace_ascii ''Bearer token-of-1000'') = Inr 1000"
    "\<forall>k p. accounts db2 k = Some p \<longrightarrow> ID (heap db2 p) \<noteq> 1000"
    "bearerToken TrimSpace_ascii ''bearer notavalidjwt'' \<noteq> []"
    "DecodeToken_example ''secret'' (bearerToken TrimSpace_ascii ''bearer notavalidjwt'') = Inl ()"
    by (auto simp: t DecodeToken_example_def db2_def acc1_def acc2_def split: if_splits)
  have g: "accounts db2 1 = Some 0" "ID (heap db2 0) \<noteq> 1000"
    by (simp_all add: db2_def acc1_def)
  from requireLogin_unknown_account [where TrimSpace = TrimSpace_ascii and DecodeToken = DecodeToken_example
      and jwtSecret = "''secret''" and header = "''Bearer token-of-1000''" and accountID = 1000
      and header' = "''bearer notavalidjwt''" and i = db2 and err = "()" and ks = "[1, 2]"
      and ks' = "[2, 1]" and i' = db2, OF h]
  show ?thesis using h(1,2,4,5) g by blast
qed

text \<open>An account the gate passes on is an account of the store.\<close>

lemma requireLogin_Next_stored:
  assumes "requireLogin TrimSpace DecodeToken jwtSecret ks header i = Next account"
  shows "\<exists>k. accounts i k = Some account"
proof -
  from assms obtain accountID where "FindAccountByID ks accountID i = Inr account"
    by (auto simp: requireLogin_def Let_def split: if_splits sum.splits)
  then have "FindAccountByID_loop (heap i) accountID (range_values ks (accounts i)) = Some account"
    by (auto simp: FindAccountByID_def split: option.splits)
  then have "account \<in> set (range_values ks (accounts i))"
    by (auto dest: FindAccountByID_loop_Some)
  then show ?thesis by (auto simp: set_range_values)
qed

section \<open>Token claims\<close>

text \<open>When both readings of the clock fall in the same second the expiry is one hour later.\<close>

lemma EncodeToken_claims_same_second:
  "Unix now1 = Unix now2 \<Longrightarrow>
   ExpiresAt (EncodeToken_claims now1 now2 accountID) = IssuedAt (EncodeToken_claims now1 now2 accountID) + 3600 \<and>
   AccountID (EncodeToken_claims now1 now2 accountID) = accountID"
  by (simp add: EncodeToken_claims_def Unix_def Hour_def)

text \<open>Keys shorter than the block that differ by a trailing zero byte give the same HMAC.\<close>

lemma hmac_block_zero:
  assumes "length key < 64"
  shows "hmac_block H (key @ [CHR 0x00]) = hmac_block H key"
proof -
  have "replicate (64 - length key) (CHR 0x00) = CHR 0x00 # replicate (64 - Suc (length key)) (CHR 0x00)"
    using assms by (metis Suc_diff_Suc replicate_Suc)
  then show ?thesis using assms by (simp add: hmac_block_def)
qed

lemma hmac_secret_zero: "hmac H secret_zero m = hmac H ''secret'' m"
  using hmac_block_zero [of "''secret''" H] by (simp add: hmac_def secret_zero_def)

text \<open>What \<open>DecodeToken\<close> returns on a token that \<open>EncodeToken\<close> produced.\<close>

lemma DecodeToken_SignedString:
  "EncodeToken (HS256_SignedString H sstr) now1 now2 secret accountID = Inr token \<Longrightarrow>
   auth_DecodeToken (ParseWithClaims H now3) secret' token =
     (let c = EncodeToken_claims now1 now2 accountID;
          vErr = Valid (Unix now3) c @
                 (if hmac H secret' (sstr ''HS256'' c) = hmac H secret (sstr ''HS256'' c)
                  then [] else [ValidationErrorSignatureInvalid])
      in if vErr = [] then Inr accountID else Inl vErr)"
  by (auto simp: EncodeToken_def HS256_SignedString_def auth_DecodeToken_def ParseWithClaims_def
      Verify_def signingMethods_def Let_def EncodeToken_claims_def)

text \<open>
  C6, as the code has it. For every account id and secret, decoding with the same secret
  the token that \<open>EncodeToken\<close> produced returns the id, when the second the clock reads at
  decoding is not before the second of issue and not after the second of expiry. Decoding
  with another secret fails with an error, at any time, whenever the two secrets give
  different HMACs of the signing string of the token.
\<close>

theorem token_round_trip:
  assumes enc: "EncodeToken (HS256_SignedString H sstr) now1 now2 secret accountID = Inr token"
  shows "(Unix now1 \<le> Unix now3 \<and> Unix now3 \<le> Unix (now2 + Hour) \<longrightarrow>
            auth_DecodeToken (ParseWithClaims H now3) secret token = Inr accountID) \<and>
         (hmac H secret' (sstr ''HS256'' (EncodeToken_claims now1 now2 accountID)) \<noteq>
          hmac H secret (sstr ''HS256'' (EncodeToken_claims now1 now2 accountID)) \<longrightarrow>
            (\<exists>err. auth_DecodeToken (ParseWithClaims H now3') secret' token = Inl err))"
proof -
  let ?c = "EncodeToken_claims now1 now2 accountID"
  have v: "Unix now1 \<le> Unix now3 \<Longrightarrow> Unix now3 \<le> Unix (now2 + Hour) \<Longrightarrow> Valid (Unix now3) ?c = []"
    by (simp add: Valid_def EncodeToken_claims_def)
  show ?thesis
    using v by (auto simp: DecodeToken_SignedString [OF enc] Let_def)
qed

theorem token_round_trip_witness:
  "EncodeToken (HS256_SignedString (\<lambda>s. s) (\<lambda>alg c. alg)) 1000000000 1000000000 ''secret'' 1 =
     Inr (Some \<lparr>Method = ''HS256'', Claims = EncodeToken_claims 1000000000 1000000000 1,
                SigningString = ''HS256'', Signature = hmac (\<lambda>s. s) ''secret'' ''HS256''\<rparr>) \<and>
   Unix 1000000000 \<le> Unix 2000000000 \<and> Unix 2000000000 \<le> Unix (1000000000 + Hour) \<and>
   auth_DecodeToken (ParseWithClaims (\<lambda>s. s) 2000000000) ''secret''
     (Some \<lparr>Method = ''HS256'', Claims = EncodeToken_claims 1000000000 1000000000 1,
            SigningString = ''HS256'', Signature = hmac (\<lambda>s. s) ''secret'' ''HS256''\<rparr>) = Inr 1 \<and>
   hmac (\<lambda>s. s) ''other'' ''HS256'' \<noteq> hmac (\<lambda>s. s) ''secret'' ''HS256'' \<and>
   (\<exists>err. auth_DecodeToken (ParseWithClaims (\<lambda>s. s) 2000000000) ''other''
     (Some \<lparr>Method = ''HS256'', Claims = EncodeToken_claims 1000000000 1000000000 1,
            SigningString = ''HS256'', Signature = hmac (\<lambda>s. s) ''secret'' ''HS256''\<rparr>) = Inl err)"
proof -
  have enc: "EncodeToken (HS256_SignedString (\<lambda>s. s) (\<lambda>alg c. alg)) 1000000000 1000000000 ''secret'' 1 =
     Inr (Some \<lparr>Method = ''HS256'', Claims = EncodeToken_claims 1000000000 1000000000 1,
                SigningString = ''HS256'', Signature = hmac (\<lambda>s. s) ''secret'' ''HS256''\<rparr>)"
    by (simp add: EncodeToken_def HS256_SignedString_def)
  have t: "Unix 1000000000 \<le> Unix 2000000000" "Unix 2000000000 \<le> Unix (1000000000 + Hour)"
    by (simp_all add: Unix_def Hour_def)
  have d: "hmac (\<lambda>s. s) ''other'' ''HS256'' \<noteq> hmac (\<lambda>s. s) ''secret'' ''HS256''"
    by (simp add: hmac_def hmac_block_def xor_byte_def char_of_eq_iff)
  from token_round_trip [OF enc, of 2000000000 "''other''" 2000000000]
  show ?thesis using enc t d by blast
qed

text \<open>
  C6, as stated, fails. For every hash function, the token issued for account 1 with the
  secret \<open>secret\<close> is decoded to 1 with the different secret \<open>secret\<close> followed by a zero
  byte: HMAC pads both keys to the same block. And with the right secret, before the expiry,
  decoding fails when the clock reads one second less than at issue.
\<close>

theorem token_other_secret_accepted:
  "\<forall>H sstr. secret_zero \<noteq> ''secret'' \<and>
     (\<exists>token. EncodeToken (HS256_SignedString H sstr) 1000000000 1000000000 ''secret'' 1 = Inr token \<and>
        auth_DecodeToken (ParseWithClaims H 2000000000) secret_zero token = Inr 1 \<and>
        auth_DecodeToken (ParseWithClaims H 0) ''secret'' token = Inl [ValidationErrorIssuedAt])"
proof (intro allI)
  fix H :: "string \<Rightarrow> string" and sstr :: "string \<Rightarrow> jwtClaims \<Rightarrow> string"
  let ?token = "Some \<lparr>Method = ''HS256'', Claims = EncodeToken_claims 1000000000 1000000000 1,
              SigningString = sstr ''HS256'' (EncodeToken_claims 1000000000 1000000000 1),
              Signature = hmac H ''secret'' (sstr ''HS256'' (EncodeToken_claims 1000000000 1000000000 1))\<rparr>"
  have enc: "EncodeToken (HS256_SignedString H sstr) 1000000000 1000000000 ''secret'' 1 = Inr ?token"
    by (simp add: EncodeToken_def HS256_SignedString_def)
  have v: "Valid (Unix 2000000000) (EncodeToken_claims 1000000000 1000000000 1) = []"
    "Valid (Unix 0) (EncodeToken_claims 1000000000 1000000000 1) = [ValidationErrorIssuedAt]"
    by (simp_all add: Valid_def EncodeToken_claims_def Unix_def Hour_def)
  have 1: "auth_DecodeToken (ParseWithClaims H 2000000000) secret_zero ?token = Inr 1"
    unfolding DecodeToken_SignedString [OF enc] by (simp add: v hmac_secret_zero)
  have 2: "auth_DecodeToken (ParseWithClaims H 0) ''secret'' ?token = Inl [ValidationErrorIssuedAt]"
    unfolding DecodeToken_SignedString [OF enc] by (simp add: v)
  have 3: "secret_zero \<noteq> ''secret''" by (simp add: secret_zero_def)
  show "secret_zero \<noteq> ''secret'' \<and>
     (\<exists>token. EncodeToken (HS256_SignedString H sstr) 1000000000 1000000000 ''secret'' 1 = Inr token \<and>
        auth_DecodeToken (ParseWithClaims H 2000000000) secret_zero token = Inr 1 \<and>
        auth_DecodeToken (ParseWithClaims H 0) ''secret'' token = Inl [ValidationErrorIssuedAt])"
    using enc 1 2 3 by blast
qed

text \<open>
  C7. When the second changes between the two readings of the clock (here 1.999999999 s
  and 2.000000000 s after the epoch), the claims that \<open>EncodeToken\<close> hands to the signer
  embed the account id, are issued at second 1 and expire at second 3602: 3601 seconds
  after they were issued, not 3600.
\<close>

theorem EncodeToken_second_boundary:
  "\<exists>claims. EncodeToken SignedString 1999999999 2000000000 secret 1 = SignedString secret claims \<and>
     AccountID claims = 1 \<and> IssuedAt claims = 1 \<and> ExpiresAt claims = 3602 \<and>
     ExpiresAt claims \<noteq> IssuedAt claims + 3600"
  by (rule exI [of _ "EncodeToken_claims 1999999999 2000000000 1"])
    (simp add: EncodeToken_def EncodeToken_claims_def Unix_def Hour_def)

end
